theory Spec2Isabelle
  imports Complex_Main
begin

section \<open>JavaScript values used by the analyzer\<close>

text \<open>
  A JavaScript string is modelled as a \<^typ>\<open>string\<close>: a list of 8-bit code units, so the
  texts covered are those whose code units are below 256. A field that may be absent
  (\<^verbatim>\<open>undefined\<close> or \<^verbatim>\<open>null\<close>) is an \<open>option\<close>. A string is falsy when it is absent or empty;
  \<^verbatim>\<open>a || b\<close> yields \<open>a\<close> when \<open>a\<close> is truthy and \<open>b\<close> otherwise.
\<close>

definition truthy :: "string option \<Rightarrow> bool" where
  "truthy t = (case t of None \<Rightarrow> False | Some s \<Rightarrow> s \<noteq> [])"

definition or_else :: "string option \<Rightarrow> string option \<Rightarrow> string option" where
  "or_else a b = (if truthy a then a else b)"

definition or_empty :: "string option \<Rightarrow> string" where
  "or_empty a = (case a of None \<Rightarrow> [] | Some s \<Rightarrow> s)"

subsection \<open>Regular expressions\<close>

text \<open>
  The four patterns of \<^verbatim>\<open>analyzer.js\<close> use literal runs, the class \<^verbatim>\<open>[-\s]\<close> under a
  greedy star, an optional single character, concatenation and alternation. All four carry
  the \<^verbatim>\<open>i\<close> flag. Under that flag two code units match when their canonical (upper-case)
  forms agree; a code unit of 128 or more never canonicalises to an ASCII letter, so for
  ASCII patterns the canonical form is the ASCII upper-case letter: the code units 97 to
  122 (\<open>a\<close> to \<open>z\<close>) map to the code unit 32 below.
\<close>

datatype cclass = Single char | HyphenSpace

datatype rx = Lit string | Star cclass | Opt cclass | Seq rx rx | Or rx rx

definition canon :: "char \<Rightarrow> nat" where
  "canon c =
     (let n = (of_char c :: nat)
      in if 97 \<le> n \<and> n \<le> 122 then n - 32 else n)"

text \<open>
  \<^verbatim>\<open>\s\<close> on 8-bit code units: tab (9), line feed (10), vertical tab (11), form feed (12),
  carriage return (13), space (32) and the no-break space (160).
\<close>

definition is_space :: "char \<Rightarrow> bool" where
  "is_space c = ((of_char c :: nat) \<in> {9, 10, 11, 12, 13, 32, 160})"

fun in_class :: "cclass \<Rightarrow> char \<Rightarrow> bool" where
  "in_class (Single c) x = (canon x = canon c)"
| "in_class HyphenSpace x = (x = CHR ''-'' \<or> is_space x)"

text \<open>
  The matcher follows the backtracking order of the language: \<open>rx_ends r s\<close> lists, most
  preferred first, what is left of \<open>s\<close> after each way \<open>r\<close> can match a prefix of it.
\<close>

fun lit_ends :: "string \<Rightarrow> string \<Rightarrow> string list" where
  "lit_ends [] s = [s]"
| "lit_ends (c # w) [] = []"
| "lit_ends (c # w) (x # s) = (if canon x = canon c then lit_ends w s else [])"

fun star_ends :: "cclass \<Rightarrow> string \<Rightarrow> string list" where
  "star_ends k [] = [[]]"
| "star_ends k (x # s) = (if in_class k x then star_ends k s @ [x # s] else [x # s])"

fun opt_ends :: "cclass \<Rightarrow> string \<Rightarrow> string list" where
  "opt_ends k [] = [[]]"
| "opt_ends k (x # s) = (if in_class k x then [s, x # s] else [x # s])"

fun rx_ends :: "rx \<Rightarrow> string \<Rightarrow> string list" where
  "rx_ends (Lit w) s = lit_ends w s"
| "rx_ends (Star k) s = star_ends k s"
| "rx_ends (Opt k) s = opt_ends k s"
| "rx_ends (Seq a b) s = concat (map (rx_ends b) (rx_ends a s))"
| "rx_ends (Or a b) s = rx_ends a s @ rx_ends b s"

text \<open>
  \<open>scan r s pos\<close> is the search of \<^verbatim>\<open>RegExpBuiltinExec\<close>: \<open>s\<close> is the text from index \<open>pos\<close>
  on; the first index at which \<open>r\<close> matches wins, and the result is the start and end
  index of that match.
\<close>

fun scan :: "rx \<Rightarrow> string \<Rightarrow> nat \<Rightarrow> (nat \<times> nat) option" where
  "scan r [] pos = (case rx_ends r [] of [] \<Rightarrow> None | rest # _ \<Rightarrow> Some (pos, pos))"
| "scan r (x # s) pos =
     (case rx_ends r (x # s) of
        [] \<Rightarrow> scan r s (Suc pos)
      | rest # _ \<Rightarrow> Some (pos, pos + (length (x # s) - length rest)))"

text \<open>
  \<^verbatim>\<open>re.test(s)\<close> for a pattern without the \<^verbatim>\<open>g\<close> flag always searches from index 0 and
  keeps no state.
\<close>

definition test :: "rx \<Rightarrow> string \<Rightarrow> bool" where
  "test r s = (scan r s 0 \<noteq> None)"

text \<open>
  \<^verbatim>\<open>re.test(s)\<close> for a pattern with the \<^verbatim>\<open>g\<close> flag reads the pattern's \<^verbatim>\<open>lastIndex\<close>,
  searches from there, and writes \<^verbatim>\<open>lastIndex\<close> back: the end of the match on success, 0 on
  failure. The pattern object is shared by all calls, so \<^verbatim>\<open>lastIndex\<close> is threaded through
  the model as state.
\<close>

definition test_g :: "rx \<Rightarrow> string \<Rightarrow> nat \<Rightarrow> bool \<times> nat" where
  "test_g r s lastIndex =
     (if lastIndex > length s then (False, 0)
      else (case scan r (drop lastIndex s) lastIndex of
              None \<Rightarrow> (False, 0)
            | Some (b, e) \<Rightarrow> (True, e)))"

text \<open>
  \<^verbatim>\<open>s.match(re)\<close> for a pattern with the \<^verbatim>\<open>g\<close> flag resets \<^verbatim>\<open>lastIndex\<close> to 0, collects every
  match from left to right (stepping one index further after an empty match) and leaves
  \<^verbatim>\<open>lastIndex\<close> at 0; the result is \<^verbatim>\<open>null\<close> when there is no match. \<open>fuel\<close> bounds the number
  of searches by the number of start indices.
\<close>

fun match_from :: "nat \<Rightarrow> rx \<Rightarrow> string \<Rightarrow> nat \<Rightarrow> string list" where
  "match_from 0 r s i = []"
| "match_from (Suc fuel) r s i =
     (if i > length s then []
      else (case scan r (drop i s) i of
              None \<Rightarrow> []
            | Some (b, e) \<Rightarrow>
                take (e - b) (drop b s) # match_from fuel r s (if e = b then Suc e else e)))"

definition match_g :: "rx \<Rightarrow> string \<Rightarrow> string list option" where
  "match_g r s =
     (case match_from (Suc (Suc (length s))) r s 0 of [] \<Rightarrow> None | ms \<Rightarrow> Some ms)"

subsection \<open>The patterns\<close>

definition sep :: rx where
  "sep = Star HyphenSpace"

definition any_of :: "string list \<Rightarrow> rx" where
  "any_of ws = foldr (\<lambda>w r. Or (Lit w) r) (butlast ws) (Lit (last ws))"

definition PET_FRIENDLY_REGEX :: rx where
  "PET_FRIENDLY_REGEX =
     Or (Seq (Lit ''pet'') (Seq sep (any_of [''friendly'', ''allowed'', ''ok'', ''welcome''])))
    (Or (Seq (Lit ''pet'') (Seq (Opt (Single CHR ''s''))
           (Seq sep (any_of [''friendly'', ''allowed'', ''ok'', ''welcome'']))))
    (Or (Seq (Lit ''dog'') (Seq sep (any_of [''friendly'', ''allowed'', ''ok'', ''welcome''])))
    (Or (Seq (Lit ''dog'') (Seq (Opt (Single CHR ''s''))
           (Seq sep (any_of [''allowed'', ''ok'', ''welcome'']))))
    (Or (Seq (Lit ''cat'') (Seq sep (any_of [''friendly'', ''allowed'', ''ok'', ''welcome''])))
        (Seq (Lit ''cat'') (Seq (Opt (Single CHR ''s''))
           (Seq sep (any_of [''allowed'', ''ok'', ''welcome'']))))))))"

definition CARPET_FREE_REGEX :: rx where
  "CARPET_FREE_REGEX =
     Or (Seq (Lit ''carpet'') (Seq sep (Lit ''free'')))
    (Or (Seq (Lit ''no'') (Seq sep (Lit ''carpet'')))
    (Or (Lit ''hardwood'')
    (Or (Seq (Lit ''laminate'') (Seq sep (Lit ''floor'')))
        (Seq (Lit ''tile'') (Seq sep (Lit ''floor''))))))"

definition GARAGE_REGEX :: rx where
  "GARAGE_REGEX = Lit ''garage''"

definition BASEMENT_REGEX :: rx where
  "BASEMENT_REGEX = Or (Lit ''basement'') (Seq (Lit ''bsmt'') (Opt (Single CHR ''.'')))"

section \<open>Numbers\<close>

text \<open>
  A JavaScript number is modelled by its exact value: a rational, or one of the three
  values that are not finite. Division follows the language (a finite non-zero number
  divided by zero is an infinity, zero by zero is \<^verbatim>\<open>NaN\<close>); the rounding of finite
  results to 64-bit binary floating point and the sign of zero are not modelled.
\<close>

datatype jsnum = Num rat | PosInf | NegInf | NaN

fun is_finite :: "jsnum \<Rightarrow> bool" where
  "is_finite (Num q) = True"
| "is_finite _ = False"

fun js_add :: "jsnum \<Rightarrow> jsnum \<Rightarrow> jsnum" where
  "js_add (Num a) (Num b) = Num (a + b)"
| "js_add NaN _ = NaN"
| "js_add _ NaN = NaN"
| "js_add PosInf NegInf = NaN"
| "js_add NegInf PosInf = NaN"
| "js_add PosInf _ = PosInf"
| "js_add _ PosInf = PosInf"
| "js_add NegInf _ = NegInf"
| "js_add _ NegInf = NegInf"

fun js_neg :: "jsnum \<Rightarrow> jsnum" where
  "js_neg (Num a) = Num (- a)"
| "js_neg PosInf = NegInf"
| "js_neg NegInf = PosInf"
| "js_neg NaN = NaN"

definition js_sub :: "jsnum \<Rightarrow> jsnum \<Rightarrow> jsnum" where
  "js_sub a b = js_add a (js_neg b)"

fun js_div :: "jsnum \<Rightarrow> jsnum \<Rightarrow> jsnum" where
  "js_div (Num a) (Num b) =
     (if b = 0 then (if a = 0 then NaN else if a > 0 then PosInf else NegInf)
      else Num (a / b))"
| "js_div NaN _ = NaN"
| "js_div _ NaN = NaN"
| "js_div (Num a) _ = Num 0"
| "js_div PosInf (Num b) = (if b \<ge> 0 then PosInf else NegInf)"
| "js_div NegInf (Num b) = (if b \<ge> 0 then NegInf else PosInf)"
| "js_div _ _ = NaN"

text \<open>\<^verbatim>\<open>Math.round\<close>: the nearest integer, a tie going up; values that are not finite pass.\<close>

fun Math_round :: "jsnum \<Rightarrow> jsnum" where
  "Math_round (Num q) = Num (of_int \<lfloor>q + 1 / 2\<rfloor>)"
| "Math_round x = x"

text \<open>
  \<^verbatim>\<open>x.toFixed(2)\<close> yields the decimal text of the multiple of 1/100 nearest to \<open>x\<close> (of two
  equally near ones the larger in magnitude). The text is modelled by the number it
  denotes, which is what \<^verbatim>\<open>parseFloat\<close> reads back from it. (From \<open>10\<^sup>2\<^sup>1\<close> on the source
  prints the number itself, which as a double is an integer: the same value.)
\<close>

definition toFixed2 :: "rat \<Rightarrow> rat" where
  "toFixed2 x =
     (if x < 0 then - (of_int \<lfloor>- x * 100 + 1 / 2\<rfloor> / 100)
      else of_int \<lfloor>x * 100 + 1 / 2\<rfloor> / 100)"

text \<open>
  The field \<^verbatim>\<open>pricePerSqft\<close> holds either such a text or the text \<^verbatim>\<open>'N/A'\<close> (here \<open>None\<close>),
  which \<^verbatim>\<open>parseFloat\<close> reads as \<^verbatim>\<open>NaN\<close>.
\<close>

definition parseFloat :: "rat option \<Rightarrow> jsnum" where
  "parseFloat t = (case t of None \<Rightarrow> NaN | Some q \<Rightarrow> Num q)"

text \<open>
  \<^verbatim>\<open>\d\<close> is a code unit from 48 to 57 (\<open>0\<close> to \<open>9\<close>). \<^verbatim>\<open>Number(s)\<close> for a text of decimal
  digits only is its value, and 0 for the empty text.
\<close>

definition is_digit :: "char \<Rightarrow> bool" where
  "is_digit c = (48 \<le> (of_char c :: nat) \<and> (of_char c :: nat) \<le> 57)"

definition digit_value :: "char \<Rightarrow> nat" where
  "digit_value c = of_char c - 48"

definition Number_digits :: "string \<Rightarrow> rat" where
  "Number_digits s = of_nat (foldl (\<lambda>n c. 10 * n + digit_value c) 0 s)"

text \<open>\<^verbatim>\<open>s.split(c)\<close> for a one-character separator.\<close>

fun split_on :: "char \<Rightarrow> string \<Rightarrow> string list" where
  "split_on c [] = [[]]"
| "split_on c (x # xs) =
     (if x = c then [] # split_on c xs
      else (case split_on c xs of [] \<Rightarrow> [[x]] | p # ps \<Rightarrow> (x # p) # ps))"

section \<open>The raw record and the canonical listing\<close>

text \<open>
  The records below carry the fields of a search result that deduplication, filtering and
  scoring read. Fields that \<^verbatim>\<open>processListing\<close> only copies into the report row (bedrooms,
  bathrooms, property type, interior size text, land size, inserted date, time label,
  link, parking space count) are left out.
\<close>

record parking_entry =
  Name :: "string option"

record address =
  AddressText :: "string option"

record property =
  Address :: "address option"
  LeaseRent :: "string option"
  Price :: "string option"
  Parking :: "parking_entry list option"
  ParkingType :: "string option"

record measurement =
  AreaUnformatted :: "string option"
  Area :: "string option"

record building =
  FloorAreaMeasurements :: "measurement list option"

record raw_result =
  MlsNumber :: "string option"
  Building :: "building option"
  Property :: "property option"
  PublicRemarks :: "string option"

record listing =
  mlsNumber :: string
  addressText :: string
  rent :: string
  sqft :: rat
  locationName :: string
  petFriendly :: string
  carpetFree :: string
  hasGarage :: string
  rentValue :: rat
  pricePerSqft :: "rat option"
  priorityScore :: jsnum
  publicRemarks :: string
  isBasement :: bool

definition CONFIG_NAMES :: "string list" where
  "CONFIG_NAMES = [''OTPP'', ''Yonge&Bloor'', ''Bay&Wellesley'']"

section \<open>The detectors of \<^verbatim>\<open>analyzer.js\<close>\<close>

text \<open>
  A local variable of the source that shares its name with a field of the listing is
  written with a prime (\<open>sqft'\<close> for the variable \<^verbatim>\<open>sqft\<close>); the function \<^verbatim>\<open>isBasement\<close> is
  \<open>isBasementText\<close>, the field of that name being \<open>isBasement\<close>.
\<close>

definition isBasementText :: "string \<Rightarrow> string \<Rightarrow> bool" where
  "isBasementText addressText' publicRemarks' =
     (let textToCheck = addressText' @ '' '' @ publicRemarks'
      in test BASEMENT_REGEX textToCheck)"

definition checkPetFriendly :: "string option \<Rightarrow> string" where
  "checkPetFriendly text =
     (if \<not> truthy text then ''unknown''
      else (case match_g PET_FRIENDLY_REGEX (or_empty text) of
              None \<Rightarrow> ''n''
            | Some matches \<Rightarrow> (if length matches > 0 then ''y'' else ''n'')))"

definition checkCarpetFree :: "string option \<Rightarrow> string" where
  "checkCarpetFree text =
     (if \<not> truthy text then ''unknown''
      else (case match_g CARPET_FREE_REGEX (or_empty text) of
              None \<Rightarrow> ''n''
            | Some matches \<Rightarrow> (if length matches > 0 then ''y'' else ''n'')))"

text \<open>
  \<^verbatim>\<open>checkHasGarage\<close> calls \<^verbatim>\<open>GARAGE_REGEX.test\<close>, and \<^verbatim>\<open>GARAGE_REGEX\<close> carries the \<^verbatim>\<open>g\<close> flag:
  every call reads and writes the \<^verbatim>\<open>lastIndex\<close> of the one shared pattern object. The
  function therefore takes the current \<^verbatim>\<open>lastIndex\<close> and returns the new one with its
  answer. \<open>some_garage\<close> is the \<^verbatim>\<open>Parking.some(...)\<close> call, which stops at the first entry
  whose test succeeds.
\<close>

fun some_garage :: "parking_entry list \<Rightarrow> nat \<Rightarrow> bool \<times> nat" where
  "some_garage [] lastIndex = (False, lastIndex)"
| "some_garage (p # ps) lastIndex =
     (if truthy (Name p) then
        (case test_g GARAGE_REGEX (or_empty (Name p)) lastIndex of
           (True, lastIndex') \<Rightarrow> (True, lastIndex')
         | (False, lastIndex') \<Rightarrow> some_garage ps lastIndex')
      else some_garage ps lastIndex)"

definition checkHasGarage :: "property option \<Rightarrow> nat \<Rightarrow> bool \<times> nat" where
  "checkHasGarage prop lastIndex =
     (case prop of
        None \<Rightarrow> (False, lastIndex)
      | Some p \<Rightarrow>
          (case (case Parking p of None \<Rightarrow> (False, lastIndex)
                                 | Some ps \<Rightarrow> some_garage ps lastIndex) of
             (True, lastIndex') \<Rightarrow> (True, lastIndex')
           | (False, lastIndex') \<Rightarrow>
               (if truthy (ParkingType p)
                then test_g GARAGE_REGEX (or_empty (ParkingType p)) lastIndex'
                else (False, lastIndex'))))"

section \<open>Area and price extraction\<close>

definition parseSqft :: "string option \<Rightarrow> rat" where
  "parseSqft sqftString =
     (if \<not> truthy sqftString then 0
      else
        (let cleaned = filter (\<lambda>c. is_digit c \<or> c = CHR ''-'') (or_empty sqftString)
         in if CHR ''-'' \<in> set cleaned
            then (case split_on CHR ''-'' cleaned of
                    min' # max' # _ \<Rightarrow> (Number_digits min' + Number_digits max') / 2
                  | _ \<Rightarrow> 0)
            else Number_digits cleaned))"

text \<open>The loop over \<^verbatim>\<open>FloorAreaMeasurements\<close>: the first measurement that parses to a positive area.\<close>

fun first_area :: "measurement list \<Rightarrow> rat" where
  "first_area [] = 0"
| "first_area (m # ms) =
     (if truthy (AreaUnformatted m) \<or> truthy (Area m) then
        (let sqft' = parseSqft (or_else (AreaUnformatted m) (Area m))
         in if sqft' > 0 then sqft' else first_area ms)
      else first_area ms)"

definition extractSqft :: "building option \<Rightarrow> rat" where
  "extractSqft b =
     (case b of
        None \<Rightarrow> 0
      | Some building' \<Rightarrow>
          (case FloorAreaMeasurements building' of
             None \<Rightarrow> 0
           | Some ms \<Rightarrow> first_area ms))"

definition extractPrice :: "string option \<Rightarrow> rat" where
  "extractPrice priceString =
     (if \<not> truthy priceString then 0
      else (let cleaned = filter is_digit (or_empty priceString)
            in Number_digits cleaned))"

section \<open>Normalisation and scoring: \<^verbatim>\<open>processListing\<close>\<close>

text \<open>
  \<open>processListing result configNumber lastIndex\<close> is the listing built from one raw
  record, with the \<^verbatim>\<open>lastIndex\<close> that the garage pattern is left with. The score is
  accumulated in the order of the source.
\<close>

definition processListing :: "raw_result \<Rightarrow> nat option \<Rightarrow> nat \<Rightarrow> listing \<times> nat" where
  "processListing result configNumber lastIndex =
     (let building' = (case Building result of
                         None \<Rightarrow> \<lparr>FloorAreaMeasurements = None\<rparr> | Some b \<Rightarrow> b);
          property' = (case Property result of
                         None \<Rightarrow> \<lparr>Address = None, LeaseRent = None, Price = None,
                                  Parking = None, ParkingType = None\<rparr>
                       | Some p \<Rightarrow> p);
          address' = (case Address property' of
                        None \<Rightarrow> \<lparr>AddressText = None\<rparr> | Some a \<Rightarrow> a);
          mlsNumber' = or_empty (MlsNumber result);
          addressText' = or_empty (AddressText address');
          rent' = or_empty (or_else (LeaseRent property') (Price property'));
          (hasGarage', lastIndex') = checkHasGarage (Some property') lastIndex;
          publicRemarks' = or_empty (PublicRemarks result);
          petFriendly' = checkPetFriendly (Some publicRemarks');
          carpetFree' = checkCarpetFree (Some publicRemarks');
          sqft' = extractSqft (Some building');
          rentValue' = extractPrice (Some rent');
          pricePerSqft' = (if sqft' > 0 then Some (toFixed2 (rentValue' / sqft')) else None);
          locationName' =
            (case configNumber of
               None \<Rightarrow> ''Unknown Location''
             | Some n \<Rightarrow> (if n \<noteq> 0 \<and> n \<ge> 1 \<and> n \<le> length CONFIG_NAMES
                          then CONFIG_NAMES ! (n - 1) else ''Unknown Location''));
          score0 = Num 0;
          score1 = (if petFriendly' = ''y'' then js_add score0 (Num 100) else score0);
          score2 = (if hasGarage' then js_add score1 (Num 100) else score1);
          score3 = (if carpetFree' = ''y'' then js_add score2 (Num 50) else score2);
          score4 = (if sqft' \<ge> 700 then js_add score3 (Num 10) else score3);
          score5 = (if sqft' > 0 \<and> rentValue' > 0
                    then js_add score4
                           (Math_round (js_div (Num 10000) (parseFloat pricePerSqft')))
                    else score4)
      in (\<lparr>mlsNumber = mlsNumber',
           addressText = addressText',
           rent = rent',
           sqft = sqft',
           locationName = locationName',
           petFriendly = petFriendly',
           carpetFree = carpetFree',
           hasGarage = (if hasGarage' then ''y'' else ''n''),
           rentValue = rentValue',
           pricePerSqft = pricePerSqft',
           priorityScore = score5,
           publicRemarks = publicRemarks',
           isBasement = isBasementText addressText' publicRemarks'\<rparr>,
          lastIndex'))"

section \<open>Deduplication: \<^verbatim>\<open>processAllJsonFiles\<close>\<close>

text \<open>
  A result file either cannot be read or parsed (the error is caught and the file is
  skipped), or parses to an object without a \<^verbatim>\<open>Results\<close> array, or carries its records. The
  number \<open>configNumber\<close> is what \<^verbatim>\<open>extractConfigNumber\<close> reads from the file's name.
\<close>

datatype file_content = Unreadable | NoResults | HasResults "raw_result list"

record json_file =
  configNumber :: "nat option"
  content :: file_content

text \<open>
  The state of the run: the listings pushed so far, the set of identifiers seen (the raw
  \<^verbatim>\<open>MlsNumber\<close> values, an absent one included), and the garage pattern's \<^verbatim>\<open>lastIndex\<close>.
\<close>

record ingest_state =
  allListings :: "listing list"
  seenMlsNumbers :: "string option set"
  garageLastIndex :: nat

fun process_results :: "nat option \<Rightarrow> raw_result list \<Rightarrow> ingest_state \<Rightarrow> ingest_state" where
  "process_results cn [] st = st"
| "process_results cn (result # rest) st =
     (if MlsNumber result \<in> seenMlsNumbers st then process_results cn rest st
      else
        (let (listing', lastIndex') = processListing result cn (garageLastIndex st)
         in process_results cn rest
              \<lparr>allListings = allListings st @ [listing'],
               seenMlsNumbers = insert (MlsNumber result) (seenMlsNumbers st),
               garageLastIndex = lastIndex'\<rparr>))"

fun process_files :: "json_file list \<Rightarrow> ingest_state \<Rightarrow> ingest_state" where
  "process_files [] st = st"
| "process_files (file # files) st =
     (case content file of
        HasResults rs \<Rightarrow> process_files files (process_results (configNumber file) rs st)
      | _ \<Rightarrow> process_files files st)"

text \<open>
  \<open>processAllJsonFiles jsonFiles lastIndex\<close>: the listings of a run over the result files
  in directory order, started with the garage pattern's \<^verbatim>\<open>lastIndex\<close> at \<open>lastIndex\<close> (0 in
  a fresh process).
\<close>

definition processAllJsonFiles :: "json_file list \<Rightarrow> nat \<Rightarrow> listing list" where
  "processAllJsonFiles jsonFiles lastIndex =
     (if length jsonFiles = 0 then []
      else allListings
             (process_files jsonFiles
                \<lparr>allListings = [], seenMlsNumbers = {}, garageLastIndex = lastIndex\<rparr>))"

section \<open>Filtering and ordering: \<^verbatim>\<open>filterAndSortListings\<close>\<close>

text \<open>
  The comparator is \<^verbatim>\<open>(a, b) => b.priorityScore - a.priorityScore\<close>. \<^verbatim>\<open>Array.prototype.sort\<close>
  is stable and reads a comparator result of \<^verbatim>\<open>NaN\<close> as 0; it is modelled as a stable
  insertion sort, \<open>a\<close> staying before \<open>b\<close> unless the comparator's result is positive.
\<close>

definition compareFn :: "listing \<Rightarrow> listing \<Rightarrow> jsnum" where
  "compareFn a b = js_sub (priorityScore b) (priorityScore a)"

fun is_positive :: "jsnum \<Rightarrow> bool" where
  "is_positive (Num q) = (q > 0)"
| "is_positive PosInf = True"
| "is_positive _ = False"

fun insert_sorted :: "listing \<Rightarrow> listing list \<Rightarrow> listing list" where
  "insert_sorted a [] = [a]"
| "insert_sorted a (b # bs) =
     (if is_positive (compareFn a b) then b # insert_sorted a bs else a # b # bs)"

definition sort_listings :: "listing list \<Rightarrow> listing list" where
  "sort_listings ls = foldr insert_sorted ls []"

definition filterAndSortListings :: "listing list \<Rightarrow> listing list" where
  "filterAndSortListings listings =
     (let filtered = filter (\<lambda>listing'. sqft listing' \<ge> 700 \<and> \<not> isBasement listing') listings
      in sort_listings filtered)"

section \<open>The search orchestrator of \<^verbatim>\<open>auto-search.js\<close>\<close>

text \<open>
  A response of the search endpoint, as far as \<^verbatim>\<open>executeSearch\<close> reads it: the \<^verbatim>\<open>Results\<close>
  array and the \<^verbatim>\<open>Paging\<close> object, each of which may be absent. The records themselves are
  not inspected, so their type is a parameter.
\<close>

record paging =
  TotalRecords :: "nat option"
  RecordsPerPage :: "nat option"

record 'r result_page =
  Results :: "'r list option"
  Paging :: "paging option"

text \<open>
  What \<^verbatim>\<open>searcher.search()\<close> throws: an error with a message and, when the server
  answered, the HTTP status of the response.
\<close>

record fetch_error =
  message :: string
  status :: "nat option"

text \<open>The \<^verbatim>\<open>TypeError\<close> of reading a property of \<^verbatim>\<open>undefined\<close>.\<close>

definition type_error :: "string \<Rightarrow> fetch_error" where
  "type_error prop =
     \<lparr>message = ''Cannot read properties of undefined (reading '' @ [CHR 0x27] @ prop
                  @ [CHR 0x27] @ '')'',
      status = None\<rparr>"

record search_options =
  fetchMultiplePages :: bool
  fetchAllPages :: bool
  maxPages :: int
  saveToFile :: bool

text \<open>\<^verbatim>\<open>s.includes(sub)\<close>: \<open>sub\<close> occurs in \<open>s\<close> as a contiguous run, case-sensitively.\<close>

fun starts_with :: "string \<Rightarrow> string \<Rightarrow> bool" where
  "starts_with s [] = True"
| "starts_with [] (c # sub) = False"
| "starts_with (x # s) (c # sub) = (x = c \<and> starts_with s sub)"

fun includes_str :: "string \<Rightarrow> string \<Rightarrow> bool" where
  "includes_str [] sub = (sub = [])"
| "includes_str (x # s) sub = (starts_with (x # s) sub \<or> includes_str s sub)"

text \<open>
  The state of one unit of work while it pages: the result object of the first page, whose
  \<^verbatim>\<open>Results\<close> array grows, and the pages requested so far, in order.
\<close>

record 'r search_state =
  results :: "'r result_page"
  pagesFetched :: "nat list"

text \<open>
  The \<^verbatim>\<open>for\<close> loop over the pages 2 to \<open>pagesToFetch\<close>. \<open>remote page\<close> is what the request
  for \<open>page\<close> yields: a thrown error or a response. Pushing onto an absent \<^verbatim>\<open>Results\<close> array of
  the first page throws inside the \<^verbatim>\<open>try\<close> block, so that error too reaches the handler of
  the page.
\<close>

function pageLoop ::
  "(nat \<Rightarrow> fetch_error + 'r result_page) \<Rightarrow> int \<Rightarrow> nat \<Rightarrow> 'r search_state \<Rightarrow> 'r search_state"
where
  "pageLoop remote pagesToFetch page st =
     (if int page \<le> pagesToFetch then
        (let st1 = st\<lparr>pagesFetched := pagesFetched st @ [page]\<rparr>;
             attempt =
               (case remote page of
                  Inl e \<Rightarrow> Inl e
                | Inr pageResults \<Rightarrow>
                    (case Results pageResults of
                       None \<Rightarrow> Inr None
                     | Some new \<Rightarrow>
                         (if length new > 0 then
                            (case Results (results st) of
                               None \<Rightarrow> Inl (type_error ''push'')
                             | Some rs \<Rightarrow> Inr (Some (rs @ new)))
                          else Inr None)))
         in (case attempt of
               Inr (Some rs') \<Rightarrow>
                 pageLoop remote pagesToFetch (Suc page)
                   (st1\<lparr>results := (results st)\<lparr>Results := Some rs'\<rparr>\<rparr>)
             | Inr None \<Rightarrow> st1
             | Inl pageError \<Rightarrow>
                 (if includes_str (message pageError) ''redirect'' then st1
                  else if status pageError = Some 429 then st1
                  else pageLoop remote pagesToFetch (Suc page) st1)))
      else st)"
  by pat_completeness auto
termination
  by (relation "measure (\<lambda>(remote, pagesToFetch, page, st). nat (pagesToFetch + 1 - int page))") auto

declare pageLoop.simps [simp del]

text \<open>
  \<open>executeSearch opts remote\<close>: the outcome of one unit of work (\<open>Inl\<close> when the function
  throws) and the pages it requested.
\<close>

definition executeSearch ::
  "search_options \<Rightarrow> (nat \<Rightarrow> fetch_error + 'r result_page)
     \<Rightarrow> (fetch_error + 'r result_page) \<times> nat list"
where
  "executeSearch opts remote =
     (case remote 1 of
        Inl error \<Rightarrow> (Inl error, [1])
      | Inr first \<Rightarrow>
          (let totalRecords =
                 (case Paging first of
                    None \<Rightarrow> 0
                  | Some pg \<Rightarrow> (case TotalRecords pg of None \<Rightarrow> 0 | Some n \<Rightarrow> n));
               currentResults = (case Results first of None \<Rightarrow> 0 | Some rs \<Rightarrow> length rs)
           in if (fetchMultiplePages opts \<or> fetchAllPages opts) \<and> totalRecords > currentResults
              then
                (let recordsPerPage =
                       (case Paging first of
                          None \<Rightarrow> 12
                        | Some pg \<Rightarrow>
                            (case RecordsPerPage pg of
                               None \<Rightarrow> 12
                             | Some n \<Rightarrow> (if n = 0 then 12 else n)));
                     totalPages = \<lceil>(of_nat totalRecords :: rat) / of_nat recordsPerPage\<rceil>;
                     pagesToFetch =
                       (if fetchAllPages opts \<or> maxPages opts = 0 then totalPages
                        else min (maxPages opts) totalPages);
                     st = pageLoop remote pagesToFetch 2 \<lparr>results = first, pagesFetched = [1]\<rparr>
                 in (case Results (results st) of
                       None \<Rightarrow> (Inl (type_error ''length''), pagesFetched st)
                     | Some rs \<Rightarrow> (Inr (results st), pagesFetched st)))
              else (Inr first, [1])))"

subsection \<open>A run over all configurations: \<^verbatim>\<open>executeByNumber\<close>\<close>

text \<open>
  What the world does for one configuration: whether \<^verbatim>\<open>CurlParser.parseCurlFile\<close> throws
  (with which message), what the search endpoint answers page by page, and whether
  \<^verbatim>\<open>saveResults\<close> throws when the result is written.
\<close>

record 'r unit_world =
  parseFailure :: "string option"
  remote_of :: "nat \<Rightarrow> fetch_error + 'r result_page"
  saveFailure :: "string option"

text \<open>
  An entry of \<^verbatim>\<open>allResults\<close>: a result object, or the failure descriptor
  \<^verbatim>\<open>{success: false, configIndex, error}\<close>.
\<close>

datatype 'r outcome = Fetched "'r result_page" | FailureDescriptor nat string

text \<open>
  The state of a run: \<^verbatim>\<open>allResults\<close>, \<^verbatim>\<open>failedConfigs\<close> (index, configuration, message), and
  the configuration numbers announced at the head of the loop body, in order.
\<close>

record ('c, 'r) run_state =
  allResults :: "'r outcome list"
  failedConfigs :: "(nat \<times> 'c \<times> string) list"
  announced :: "nat list"

definition record_failure :: "nat \<Rightarrow> 'c \<Rightarrow> string \<Rightarrow> ('c, 'r) run_state \<Rightarrow> ('c, 'r) run_state" where
  "record_failure i conf msg st =
     st\<lparr>failedConfigs := failedConfigs st @ [(i + 1, conf, msg)],
        allResults := allResults st @ [FailureDescriptor (i + 1) msg]\<rparr>"

text \<open>The body of the \<^verbatim>\<open>for\<close> loop for configuration \<open>i\<close> (counted from 0, as in the source).\<close>

definition run_config ::
  "search_options \<Rightarrow> 'r unit_world \<Rightarrow> nat \<Rightarrow> 'c \<Rightarrow> ('c, 'r) run_state \<Rightarrow> ('c, 'r) run_state"
where
  "run_config opts w i conf st =
     (let st0 = st\<lparr>announced := announced st @ [i + 1]\<rparr>
      in (case parseFailure w of
            Some msg \<Rightarrow> record_failure i conf msg st0
          | None \<Rightarrow>
              (case fst (executeSearch opts (remote_of w)) of
                 Inl error \<Rightarrow> record_failure i conf (message error) st0
               | Inr result \<Rightarrow>
                   (let st1 = st0\<lparr>allResults := allResults st0 @ [Fetched result]\<rparr>
                    in if saveToFile opts then
                         (case saveFailure w of
                            Some msg \<Rightarrow> record_failure i conf msg st1
                          | None \<Rightarrow> st1)
                       else st1))))"

fun run_configs ::
  "search_options \<Rightarrow> (nat \<Rightarrow> 'r unit_world) \<Rightarrow> nat \<Rightarrow> 'c list \<Rightarrow> ('c, 'r) run_state
     \<Rightarrow> ('c, 'r) run_state"
where
  "run_configs opts world i [] st = st"
| "run_configs opts world i (conf # rest) st =
     run_configs opts world (Suc i) rest (run_config opts (world i) i conf st)"

datatype fatal = FileDoesNotExist

text \<open>
  \<open>executeByNumber opts fileExists allConfigs world\<close>: the run over the configurations
  \<open>allConfigs\<close>, where \<open>world i\<close> is what the world does for configuration \<open>i\<close>. The run
  throws at once when the curl file does not exist.
\<close>

definition executeByNumber ::
  "search_options \<Rightarrow> bool \<Rightarrow> 'c list \<Rightarrow> (nat \<Rightarrow> 'r unit_world) \<Rightarrow> fatal + ('c, 'r) run_state"
where
  "executeByNumber opts fileExists allConfigs world =
     (if \<not> fileExists then Inl FileDoesNotExist
      else Inr (run_configs opts world 0 allConfigs
                  \<lparr>allResults = [], failedConfigs = [], announced = []\<rparr>))"

text \<open>The three numbers of the printed summary: configurations, successes, failures.\<close>

definition summary :: "'c list \<Rightarrow> ('c, 'r) run_state \<Rightarrow> int \<times> int \<times> int" where
  "summary allConfigs st =
     (int (length allConfigs),
      int (length allConfigs) - int (length (failedConfigs st)),
      int (length (failedConfigs st)))"

section \<open>Reference definitions\<close>

text \<open>
  The score as the specification words it: the sum of the four flag contributions and,
  when area and price are both positive, of \<open>round(10000 / p)\<close>, where \<open>p\<close> is the price per
  area rounded to two decimal places.
\<close>

definition spec_score :: "string \<Rightarrow> bool \<Rightarrow> string \<Rightarrow> rat \<Rightarrow> rat \<Rightarrow> jsnum" where
  "spec_score pet garage carpet area price =
     js_add
       (Num ((if pet = ''y'' then 100 else 0) + (if garage then 100 else 0)
             + (if carpet = ''y'' then 50 else 0) + (if area \<ge> 700 then 10 else 0)))
       (if area > 0 \<and> price > 0
        then Math_round (js_div (Num 10000) (Num (of_int (round (price / area * 100)) / 100)))
        else Num 0)"

text \<open>A text contains a match of a pattern when the pattern matches at the start of one of its suffixes.\<close>

fun has_match :: "rx \<Rightarrow> string \<Rightarrow> bool" where
  "has_match r [] = (rx_ends r [] \<noteq> [])"
| "has_match r (x # s) = (rx_ends r (x # s) \<noteq> [] \<or> has_match r s)"

text \<open>
  The records of a run in the order in which they are read: file by file, and within a
  file in the order of its \<^verbatim>\<open>Results\<close> array, each with the configuration number of its file.
  \<open>ident\<close> is the raw identifier of a record, the value that is looked up in the set of
  seen identifiers.
\<close>

fun records_of :: "json_file list \<Rightarrow> (nat option \<times> raw_result) list" where
  "records_of [] = []"
| "records_of (file # files) =
     (case content file of
        HasResults rs \<Rightarrow> map (Pair (configNumber file)) rs @ records_of files
      | _ \<Rightarrow> records_of files)"

definition ident :: "nat option \<times> raw_result \<Rightarrow> string option" where
  "ident x = MlsNumber (snd x)"

text \<open>
  Deduplication as the specification words it: of the records with one identifier, the
  first is kept.
\<close>

fun first_occurrences :: "(nat option \<times> raw_result) list \<Rightarrow> (nat option \<times> raw_result) list" where
  "first_occurrences [] = []"
| "first_occurrences (x # xs) = x # first_occurrences (filter (\<lambda>y. ident y \<noteq> ident x) xs)"

text \<open>
  The listings built from a sequence of records, one after the other; the \<^verbatim>\<open>lastIndex\<close> of the
  garage pattern passes from one call of \<^verbatim>\<open>processListing\<close> to the next.
\<close>

fun normalize_all :: "(nat option \<times> raw_result) list \<Rightarrow> nat \<Rightarrow> listing list" where
  "normalize_all [] li = []"
| "normalize_all (x # xs) li =
     fst (processListing (snd x) (fst x) li)
       # normalize_all xs (snd (processListing (snd x) (fst x) li))"

text \<open>The two nested loops of \<^verbatim>\<open>processAllJsonFiles\<close> as one pass over the records of all files.\<close>

fun ingest :: "(nat option \<times> raw_result) list \<Rightarrow> ingest_state \<Rightarrow> ingest_state" where
  "ingest [] st = st"
| "ingest (x # xs) st =
     (if ident x \<in> seenMlsNumbers st then ingest xs st
      else ingest xs
             \<lparr>allListings = allListings st @ [fst (processListing (snd x) (fst x) (garageLastIndex st))],
              seenMlsNumbers = insert (ident x) (seenMlsNumbers st),
              garageLastIndex = snd (processListing (snd x) (fst x) (garageLastIndex st))\<rparr>)"

text \<open>
  The quantities that \<^verbatim>\<open>executeSearch\<close> computes from the first page: the reported total
  (0 when none is reported), the reported page size (12 when none or 0 is reported), the
  number of pages (their quotient, rounded up), and the last page to request (all pages
  when every page is asked for or no maximum is set, else at most the maximum).
\<close>

definition reported_total :: "'r result_page \<Rightarrow> nat" where
  "reported_total first =
     (case Paging first of
        None \<Rightarrow> 0
      | Some pg \<Rightarrow> (case TotalRecords pg of None \<Rightarrow> 0 | Some n \<Rightarrow> n))"

definition page_size :: "'r result_page \<Rightarrow> nat" where
  "page_size first =
     (case Paging first of
        None \<Rightarrow> 12
      | Some pg \<Rightarrow> (case RecordsPerPage pg of None \<Rightarrow> 12 | Some n \<Rightarrow> if n = 0 then 12 else n))"

definition total_pages :: "'r result_page \<Rightarrow> int" where
  "total_pages first = \<lceil>(of_nat (reported_total first) :: rat) / of_nat (page_size first)\<rceil>"

definition pages_to_fetch :: "search_options \<Rightarrow> 'r result_page \<Rightarrow> int" where
  "pages_to_fetch opts first =
     (if fetchAllPages opts \<or> maxPages opts = 0 then total_pages first
      else min (maxPages opts) (total_pages first))"

text \<open>A page without records; an error that ends paging; a page after which paging goes on.\<close>

definition no_records :: "'r result_page \<Rightarrow> bool" where
  "no_records pg = (case Results pg of None \<Rightarrow> True | Some rs \<Rightarrow> rs = [])"

definition stops_paging :: "fetch_error \<Rightarrow> bool" where
  "stops_paging e = (includes_str (message e) ''redirect'' \<or> status e = Some 429)"

definition page_continues :: "(nat \<Rightarrow> fetch_error + 'r result_page) \<Rightarrow> nat \<Rightarrow> bool" where
  "page_continues remote i =
     (case remote i of Inl e \<Rightarrow> \<not> stops_paging e | Inr pg \<Rightarrow> \<not> no_records pg)"

text \<open>The records that a page adds to the result of the unit.\<close>

definition page_records :: "(nat \<Rightarrow> fetch_error + 'r result_page) \<Rightarrow> nat \<Rightarrow> 'r list" where
  "page_records remote i =
     (case remote i of
        Inl e \<Rightarrow> []
      | Inr pg \<Rightarrow> (case Results pg of None \<Rightarrow> [] | Some rs \<Rightarrow> rs))"


text \<open>A parking entry names a garage when its name is non-empty and contains a match.\<close>

definition names_garage :: "parking_entry \<Rightarrow> bool" where
  "names_garage e = (truthy (Name e) \<and> has_match GARAGE_REGEX (or_empty (Name e)))"

text \<open>
  How a unit of work of a run can fail: the search throws, or the search succeeds and the
  write of the result throws, or the parser throws. \<open>is_failure\<close> tells a failure descriptor
  from a result object.
\<close>

definition search_fails :: "search_options \<Rightarrow> 'r unit_world \<Rightarrow> bool" where
  "search_fails opts w = (case fst (executeSearch opts (remote_of w)) of Inl e \<Rightarrow> True | Inr r \<Rightarrow> False)"

definition save_fails :: "search_options \<Rightarrow> 'r unit_world \<Rightarrow> bool" where
  "save_fails opts w =
     (parseFailure w = None \<and> \<not> search_fails opts w \<and> saveToFile opts \<and> saveFailure w \<noteq> None)"

definition unit_fails :: "search_options \<Rightarrow> 'r unit_world \<Rightarrow> bool" where
  "unit_fails opts w = (parseFailure w \<noteq> None \<or> search_fails opts w \<or> save_fails opts w)"

fun is_failure :: "'r outcome \<Rightarrow> bool" where
  "is_failure (Fetched r) = False"
| "is_failure (FailureDescriptor i msg) = True"
section \<open>Example inputs\<close>


text \<open>A record with a rent of 1 and an area of 1000 square feet.\<close>

definition cheap_listing :: raw_result where
  "cheap_listing =
     \<lparr>MlsNumber = Some ''C200'',
      Building = Some \<lparr>FloorAreaMeasurements =
                   Some [\<lparr>AreaUnformatted = Some ''1000 sqft'', Area = None\<rparr>]\<rparr>,
      Property = Some \<lparr>Address = None, LeaseRent = Some ''$1'', Price = None,
                   Parking = None, ParkingType = None\<rparr>,
      PublicRemarks = None\<rparr>"

text \<open>A listing with a given identifier, area and basement flag, and nothing else of note.\<close>

definition listing_with :: "string \<Rightarrow> rat \<Rightarrow> bool \<Rightarrow> listing" where
  "listing_with mls area basement =
     \<lparr>mlsNumber = mls, addressText = [], rent = [], sqft = area,
      locationName = ''Unknown Location'', petFriendly = ''unknown'',
      carpetFree = ''unknown'', hasGarage = ''n'', rentValue = 0, pricePerSqft = None,
      priorityScore = Num 0, publicRemarks = [], isBasement = basement\<rparr>"




text \<open>
  Result pages whose records are copies of the page number, search options, and remote
  endpoints: one that always answers, one that is empty from page 2 on, one that is rate
  limited from page 3 on, and one whose page 3 times out.
\<close>

definition page_of :: "nat \<Rightarrow> nat \<Rightarrow> nat \<Rightarrow> nat \<Rightarrow> nat result_page" where
  "page_of p n tot sz =
     \<lparr>Results = Some (replicate n p),
      Paging = Some \<lparr>TotalRecords = Some tot, RecordsPerPage = Some sz\<rparr>\<rparr>"

definition opts_all :: search_options where
  "opts_all = \<lparr>fetchMultiplePages = True, fetchAllPages = True, maxPages = 0, saveToFile = False\<rparr>"

definition opts_capped :: search_options where
  "opts_capped = \<lparr>fetchMultiplePages = True, fetchAllPages = False, maxPages = 1, saveToFile = False\<rparr>"

definition remote_40 :: "nat \<Rightarrow> fetch_error + nat result_page" where
  "remote_40 p = Inr (page_of p 20 40 20)"

definition remote_40_short :: "nat \<Rightarrow> fetch_error + nat result_page" where
  "remote_40_short p = Inr (if p = 1 then page_of 1 20 40 20 else \<lparr>Results = Some [], Paging = None\<rparr>)"



text \<open>A world in which every search succeeds and every write of a result fails.\<close>

definition opts_save :: search_options where
  "opts_save = \<lparr>fetchMultiplePages = False, fetchAllPages = False, maxPages = 0, saveToFile = True\<rparr>"

definition world_disk_full :: "nat \<Rightarrow> nat unit_world" where
  "world_disk_full i =
     \<lparr>parseFailure = None,
      remote_of = (\<lambda>p. Inr (page_of p 20 20 20)),
      saveFailure = Some ''ENOSPC: no space left on device, write''\<rparr>"

text \<open>Two records with different identifiers, each with a garage among its parking entries.\<close>

definition garage_record :: "string \<Rightarrow> raw_result" where
  "garage_record mls =
     \<lparr>MlsNumber = Some mls, Building = None,
      Property = Some \<lparr>Address = None, LeaseRent = None, Price = None,
                   Parking = Some [\<lparr>Name = Some ''Garage''\<rparr>], ParkingType = None\<rparr>,
      PublicRemarks = None\<rparr>"

definition garage_files :: "json_file list" where
  "garage_files =
     [\<lparr>configNumber = Some 1,
       content = HasResults [garage_record ''G1'', garage_record ''G2'']\<rparr>]"

section \<open>Basic facts\<close>

lemmas string_defs = truthy_def or_else_def or_empty_def

lemmas regex_defs = test_def test_g_def match_g_def canon_def is_space_def sep_def any_of_def
  PET_FRIENDLY_REGEX_def CARPET_FREE_REGEX_def GARAGE_REGEX_def BASEMENT_REGEX_def

lemmas number_defs = is_digit_def digit_value_def Number_digits_def toFixed2_def parseFloat_def

lemma scan_None_iff: "scan r s pos = None \<longleftrightarrow> \<not> has_match r s"
  by (induction s arbitrary: pos) (auto split: list.splits)

lemma match_g_None_iff: "match_g r s = None \<longleftrightarrow> \<not> has_match r s"
proof -
  have "match_from (Suc (Suc (length s))) r s 0 = [] \<longleftrightarrow> scan r s 0 = None"
    by (auto split: option.splits)
  then show ?thesis
    by (auto simp: match_g_def scan_None_iff split: list.splits)
qed

lemma match_g_Some_nonempty: "match_g r s = Some ms \<Longrightarrow> length ms > 0"
  by (auto simp: match_g_def split: list.splits)

lemma has_match_suffix:
  "has_match r s \<longleftrightarrow> (\<exists>pre rest. s = pre @ rest \<and> rx_ends r rest \<noteq> [])"
proof (induction s)
  case Nil
  then show ?case by auto
next
  case (Cons x s)
  show ?case
  proof
    assume "has_match r (x # s)"
    then consider "rx_ends r (x # s) \<noteq> []" | "has_match r s" by auto
    then show "\<exists>pre rest. x # s = pre @ rest \<and> rx_ends r rest \<noteq> []"
    proof cases
      case 1
      then have "x # s = [] @ (x # s) \<and> rx_ends r (x # s) \<noteq> []" by simp
      then show ?thesis by blast
    next
      case 2
      then obtain pre rest where "s = pre @ rest" "rx_ends r rest \<noteq> []"
        using Cons.IH by blast
      then have "x # s = (x # pre) @ rest \<and> rx_ends r rest \<noteq> []" by simp
      then show ?thesis by blast
    qed
  next
    assume "\<exists>pre rest. x # s = pre @ rest \<and> rx_ends r rest \<noteq> []"
    then obtain pre rest where pr: "x # s = pre @ rest" "rx_ends r rest \<noteq> []" by blast
    show "has_match r (x # s)"
    proof (cases pre)
      case Nil
      then have "rx_ends r (x # s) \<noteq> []" using pr by simp
      then show ?thesis by simp
    next
      case (Cons y pre')
      then have "s = pre' @ rest" using pr by simp
      then have "has_match r s" using Cons.IH pr(2) by blast
      then show ?thesis by simp
    qed
  qed
qed

lemma detector_value:
  "(if \<not> truthy t then ''unknown''
    else (case match_g r (or_empty t) of
            None \<Rightarrow> ''n''
          | Some matches \<Rightarrow> (if length matches > 0 then ''y'' else ''n''))) =
   (case t of
      None \<Rightarrow> ''unknown''
    | Some s \<Rightarrow> if s = [] then ''unknown'' else if has_match r s then ''y'' else ''n'')"
proof (cases t)
  case None
  then show ?thesis by (simp add: truthy_def)
next
  case (Some s)
  show ?thesis
  proof (cases "match_g r s")
    case None
    then show ?thesis
      using Some match_g_None_iff[of r s] by (simp add: truthy_def or_empty_def)
  next
    case (Some ms)
    then have "has_match r s" "length ms > 0"
      using match_g_None_iff[of r s] match_g_Some_nonempty[of r s ms] by auto
    then show ?thesis
      using Some \<open>t = Some s\<close> by (simp add: truthy_def or_empty_def)
  qed
qed

lemma floor_divide_numeral_rat [simp]:
  "\<lfloor>(numeral a :: rat) / numeral b\<rfloor> = numeral a div numeral b"
  using floor_divide_of_int_eq[of "numeral a" "numeral b", where ?'a = rat] by simp

lemma toFixed2_round: "0 \<le> x \<Longrightarrow> toFixed2 x = of_int (round (x * 100)) / 100"
  unfolding toFixed2_def round_def by simp

lemma toFixed2_small: "0 \<le> x \<Longrightarrow> x < 1 / 200 \<Longrightarrow> toFixed2 x = 0"
proof -
  assume a: "0 \<le> x" "x < 1 / 200"
  then have "0 \<le> x * 100 + 1 / 2" "x * 100 + 1 / 2 < 1" by simp_all
  then have "\<lfloor>x * 100 + 1 / 2\<rfloor> = 0" by linarith
  then show ?thesis using a by (simp add: toFixed2_def)
qed

lemma parseSqft_nonneg: "0 \<le> parseSqft t"
  by (auto simp: parseSqft_def Number_digits_def Let_def split: list.splits)

lemma first_area_nonneg: "0 \<le> first_area ms"
  by (induction ms) (auto simp: Let_def)

lemma extractSqft_nonneg: "0 \<le> extractSqft b"
  by (auto simp: extractSqft_def first_area_nonneg split: option.splits)

lemma extractPrice_nonneg: "0 \<le> extractPrice t"
  by (auto simp: extractPrice_def Number_digits_def Let_def)

lemma garage_flag: "((if hg then ''y'' else ''n'') = ''y'') = hg"
  by simp

text \<open>The accumulation of the score, step by step, against the sum of the specification.\<close>

lemma score_accumulation:
  assumes "0 \<le> price" "0 \<le> area"
  shows "(let score0 = Num 0;
              score1 = (if pet = ''y'' then js_add score0 (Num 100) else score0);
              score2 = (if garage then js_add score1 (Num 100) else score1);
              score3 = (if carpet = ''y'' then js_add score2 (Num 50) else score2);
              score4 = (if area \<ge> 700 then js_add score3 (Num 10) else score3);
              score5 = (if area > 0 \<and> price > 0
                        then js_add score4
                               (Math_round (js_div (Num 10000)
                                  (parseFloat (if area > 0 then Some (toFixed2 (price / area))
                                               else None))))
                        else score4)
          in score5) = spec_score pet garage carpet area price"
proof -
  define a1 :: rat where "a1 = (if pet = ''y'' then 100 else 0)"
  define a2 :: rat where "a2 = (if garage then 100 else 0)"
  define a3 :: rat where "a3 = (if carpet = ''y'' then 50 else 0)"
  define a4 :: rat where "a4 = (if area \<ge> 700 then 10 else 0)"
  define s1 where "s1 = (if pet = ''y'' then js_add (Num 0) (Num 100) else Num 0)"
  define s2 where "s2 = (if garage then js_add s1 (Num 100) else s1)"
  define s3 where "s3 = (if carpet = ''y'' then js_add s2 (Num 50) else s2)"
  define s4 where "s4 = (if area \<ge> 700 then js_add s3 (Num 10) else s3)"
  define v where
    "v = Math_round (js_div (Num 10000) (Num (of_int (round (price / area * 100)) / 100)))"
  have s1: "s1 = Num a1" by (simp add: s1_def a1_def)
  have s2: "s2 = Num (a1 + a2)" by (simp add: s2_def a2_def s1)
  have s3: "s3 = Num (a1 + a2 + a3)" by (simp add: s3_def a3_def s2)
  have s4: "s4 = Num (a1 + a2 + a3 + a4)" by (simp add: s4_def a4_def s3)
  have q: "toFixed2 (price / area) = of_int (round (price / area * 100)) / 100"
    using assms by (intro toFixed2_round) simp
  have lhs: "(let score0 = Num 0;
              score1 = (if pet = ''y'' then js_add score0 (Num 100) else score0);
              score2 = (if garage then js_add score1 (Num 100) else score1);
              score3 = (if carpet = ''y'' then js_add score2 (Num 50) else score2);
              score4 = (if area \<ge> 700 then js_add score3 (Num 10) else score3);
              score5 = (if area > 0 \<and> price > 0
                        then js_add score4
                               (Math_round (js_div (Num 10000)
                                  (parseFloat (if area > 0 then Some (toFixed2 (price / area))
                                               else None))))
                        else score4)
          in score5) = (if area > 0 \<and> price > 0 then js_add s4 v else s4)"
    unfolding Let_def s4_def s3_def s2_def s1_def v_def q parseFloat_def
    by (simp only: if_True option.case cong: if_cong)
  have rhs: "spec_score pet garage carpet area price =
             js_add (Num (a1 + a2 + a3 + a4)) (if area > 0 \<and> price > 0 then v else Num 0)"
    unfolding spec_score_def a1_def a2_def a3_def a4_def v_def ..
  show ?thesis unfolding lhs rhs s4 by simp
qed

lemma priorityScore_processListing:
  "priorityScore (fst (processListing r c li)) =
     spec_score (petFriendly (fst (processListing r c li)))
                (hasGarage (fst (processListing r c li)) = ''y'')
                (carpetFree (fst (processListing r c li)))
                (sqft (fst (processListing r c li)))
                (rentValue (fst (processListing r c li)))"
  unfolding processListing_def
  by (simp only: Let_def split_def fst_conv listing.select_convs garage_flag
        score_accumulation[OF extractPrice_nonneg extractSqft_nonneg, unfolded Let_def])

lemma pricePerSqft_processListing:
  "pricePerSqft (fst (processListing r c li)) =
     (if sqft (fst (processListing r c li)) > 0
      then Some (toFixed2 (rentValue (fst (processListing r c li))
                           / sqft (fst (processListing r c li))))
      else None)"
  unfolding processListing_def
  by (simp only: Let_def split_def fst_conv listing.select_convs)

lemma set_insert_sorted: "set (insert_sorted a bs) = insert a (set bs)"
  by (induction bs) auto

lemma set_sort_listings: "set (sort_listings ls) = set ls"
  unfolding sort_listings_def by (induction ls) (simp_all add: set_insert_sorted)

lemma has_matchI: "s = pre @ rest \<Longrightarrow> rx_ends r rest \<noteq> [] \<Longrightarrow> has_match r s"
  using has_match_suffix by blast

lemma checkPetFriendly_value:
  "checkPetFriendly t =
     (case t of
        None \<Rightarrow> ''unknown''
      | Some s \<Rightarrow> if s = [] then ''unknown''
                  else if has_match PET_FRIENDLY_REGEX s then ''y'' else ''n'')"
  unfolding checkPetFriendly_def by (rule detector_value)

lemma checkCarpetFree_value:
  "checkCarpetFree t =
     (case t of
        None \<Rightarrow> ''unknown''
      | Some s \<Rightarrow> if s = [] then ''unknown''
                  else if has_match CARPET_FREE_REGEX s then ''y'' else ''n'')"
  unfolding checkCarpetFree_def by (rule detector_value)

text \<open>What \<^verbatim>\<open>processListing\<close> puts into the fields that the claims read.\<close>

lemma processListing_fields:
  "mlsNumber (fst (processListing r c li)) = or_empty (MlsNumber r)"
  "petFriendly (fst (processListing r c li)) =
     checkPetFriendly (Some (or_empty (PublicRemarks r)))"
  "carpetFree (fst (processListing r c li)) =
     checkCarpetFree (Some (or_empty (PublicRemarks r)))"
  "hasGarage (fst (processListing r c li)) =
     (if fst (checkHasGarage
                (Some (case Property r of
                         None \<Rightarrow> \<lparr>Address = None, LeaseRent = None, Price = None,
                                  Parking = None, ParkingType = None\<rparr>
                       | Some p \<Rightarrow> p)) li)
      then ''y'' else ''n'')"
  "snd (processListing r c li) =
     snd (checkHasGarage
            (Some (case Property r of
                     None \<Rightarrow> \<lparr>Address = None, LeaseRent = None, Price = None,
                              Parking = None, ParkingType = None\<rparr>
                   | Some p \<Rightarrow> p)) li)"
  "sqft (fst (processListing r c li)) =
     extractSqft (Some (case Building r of
                          None \<Rightarrow> \<lparr>FloorAreaMeasurements = None\<rparr> | Some b \<Rightarrow> b))"
  "rentValue (fst (processListing r c li)) =
     extractPrice
       (Some (or_empty
                (or_else
                   (LeaseRent (case Property r of
                                 None \<Rightarrow> \<lparr>Address = None, LeaseRent = None, Price = None,
                                          Parking = None, ParkingType = None\<rparr>
                               | Some p \<Rightarrow> p))
                   (Price (case Property r of
                             None \<Rightarrow> \<lparr>Address = None, LeaseRent = None, Price = None,
                                      Parking = None, ParkingType = None\<rparr>
                           | Some p \<Rightarrow> p)))))"
  unfolding processListing_def
  by (simp_all only: Let_def split_def fst_conv snd_conv listing.select_convs)





lemma cheap_numbers:
  "sqft (fst (processListing cheap_listing None 0)) = 1000"
  "rentValue (fst (processListing cheap_listing None 0)) = 1"
  by (simp_all add: processListing_fields cheap_listing_def extractSqft_def parseSqft_def
      extractPrice_def string_defs number_defs)

subsection \<open>Deduplication\<close>

lemma ingest_append: "ingest (xs @ ys) st = ingest ys (ingest xs st)"
  by (induction xs arbitrary: st) auto

lemma process_results_ingest: "process_results cn rs st = ingest (map (Pair cn) rs) st"
  by (induction rs arbitrary: st) (auto simp: ident_def split_def Let_def)

lemma process_files_ingest: "process_files files st = ingest (records_of files) st"
  by (induction files arbitrary: st)
     (auto simp: process_results_ingest ingest_append split: file_content.splits)

lemma filter_ident_seen:
  "filter (\<lambda>y. ident y \<noteq> k) (filter (\<lambda>y. ident y \<notin> S) xs) = filter (\<lambda>y. ident y \<notin> insert k S) xs"
  by (induction xs) auto

lemma ingest_first_occurrences:
  "allListings (ingest xs st) =
     allListings st @ normalize_all (first_occurrences (filter (\<lambda>y. ident y \<notin> seenMlsNumbers st) xs))
                        (garageLastIndex st)"
proof (induction xs arbitrary: st)
  case Nil
  then show ?case by simp
next
  case (Cons x xs)
  show ?case
  proof (cases "ident x \<in> seenMlsNumbers st")
    case True
    then show ?thesis using Cons.IH[of st] by simp
  next
    case False
    have "(\<lambda>y. ident y \<noteq> ident x \<and> ident y \<notin> seenMlsNumbers st)
        = (\<lambda>y. ident y \<notin> seenMlsNumbers st \<and> ident y \<noteq> ident x)"
      by auto
    then show ?thesis
      using False by (simp add: Cons.IH)
  qed
qed

lemma processAllJsonFiles_first_occurrences:
  "processAllJsonFiles files li = normalize_all (first_occurrences (records_of files)) li"
proof (cases files)
  case Nil
  then show ?thesis by (simp add: processAllJsonFiles_def)
next
  case (Cons f fs)
  then show ?thesis
    by (simp add: processAllJsonFiles_def process_files_ingest ingest_first_occurrences
        del: process_files.simps records_of.simps ingest.simps)
qed







lemma mlsNumber_normalize_all:
  "map mlsNumber (normalize_all xs li) = map (\<lambda>x. or_empty (ident x)) xs"
  by (induction xs arbitrary: li) (simp_all add: processListing_fields ident_def)

lemma length_filter_map': "length (filter P (map f xs)) = length (filter (\<lambda>x. P (f x)) xs)"
  by (induction xs) auto

lemma mlsNumber_processAllJsonFiles:
  "map mlsNumber (processAllJsonFiles files li) =
     map (\<lambda>x. or_empty (ident x)) (first_occurrences (records_of files))"
  by (simp add: processAllJsonFiles_first_occurrences mlsNumber_normalize_all)





subsection \<open>The paging loop\<close>

lemma pageLoop_done: "\<not> int page \<le> P \<Longrightarrow> pageLoop remote P page st = st"
  by (subst pageLoop.simps) simp

lemma pageLoop_empty:
  "int page \<le> P \<Longrightarrow> remote page = Inr pg \<Longrightarrow> no_records pg \<Longrightarrow>
   pageLoop remote P page st = st\<lparr>pagesFetched := pagesFetched st @ [page]\<rparr>"
  by (subst pageLoop.simps) (auto simp: no_records_def Let_def split: option.splits)

lemma pageLoop_stop:
  "int page \<le> P \<Longrightarrow> remote page = Inl e \<Longrightarrow> stops_paging e \<Longrightarrow>
   pageLoop remote P page st = st\<lparr>pagesFetched := pagesFetched st @ [page]\<rparr>"
  by (subst pageLoop.simps) (auto simp: stops_paging_def Let_def)

lemma pageLoop_skip:
  "int page \<le> P \<Longrightarrow> remote page = Inl e \<Longrightarrow> \<not> stops_paging e \<Longrightarrow>
   pageLoop remote P page st =
     pageLoop remote P (Suc page) (st\<lparr>pagesFetched := pagesFetched st @ [page]\<rparr>)"
  by (subst pageLoop.simps) (auto simp: stops_paging_def Let_def)

lemma pageLoop_append:
  "int page \<le> P \<Longrightarrow> remote page = Inr pg \<Longrightarrow> Results pg = Some new \<Longrightarrow> new \<noteq> [] \<Longrightarrow>
   Results (results st) = Some rs \<Longrightarrow>
   pageLoop remote P page st =
     pageLoop remote P (Suc page)
       (st\<lparr>pagesFetched := pagesFetched st @ [page],
           results := (results st)\<lparr>Results := Some (rs @ new)\<rparr>\<rparr>)"
  by (subst pageLoop.simps) (auto simp: Let_def)

lemma pageLoop_step:
  assumes "int page \<le> P" "page_continues remote page" "Results (results st) = Some rs"
  shows "pageLoop remote P page st =
     pageLoop remote P (Suc page)
       (st\<lparr>pagesFetched := pagesFetched st @ [page],
           results := (results st)\<lparr>Results := Some (rs @ page_records remote page)\<rparr>\<rparr>)"
proof (cases "remote page")
  case (Inl e)
  then have "\<not> stops_paging e" using assms(2) by (simp add: page_continues_def)
  moreover have "(results st)\<lparr>Results := Some rs\<rparr> = results st"
    using assms(3) by simp
  ultimately show ?thesis
    using pageLoop_skip[of page P remote e st] assms(1) Inl by (simp add: page_records_def)
next
  case (Inr pg)
  then have "\<not> no_records pg" using assms(2) by (simp add: page_continues_def)
  then obtain new where "Results pg = Some new" "new \<noteq> []"
    by (auto simp: no_records_def split: option.splits)
  then show ?thesis
    using pageLoop_append[of page P remote pg new st rs] assms(1,3) Inr by (simp add: page_records_def)
qed

lemma Results_update_same: "Results r = Some rs \<Longrightarrow> r\<lparr>Results := Some rs\<rparr> = r"
  by (cases r) simp

lemma pageLoop_reach:
  assumes "Results (results st) = Some rs"
    and "\<forall>i. page \<le> i \<and> i < page + k \<longrightarrow> page_continues remote i"
    and "int (page + k) \<le> P + 1"
  shows "pageLoop remote P page st =
     pageLoop remote P (page + k)
       (st\<lparr>pagesFetched := pagesFetched st @ [page..<page + k],
           results := (results st)\<lparr>Results :=
              Some (rs @ concat (map (page_records remote) [page..<page + k]))\<rparr>\<rparr>)"
  using assms
proof (induction k arbitrary: page st rs)
  case 0
  then show ?case by (simp add: Results_update_same)
next
  case (Suc k)
  have c: "page_continues remote page" using Suc.prems(2) by simp
  have le: "int page \<le> P" using Suc.prems(3) by simp
  let ?st1 = "st\<lparr>pagesFetched := pagesFetched st @ [page],
           results := (results st)\<lparr>Results := Some (rs @ page_records remote page)\<rparr>\<rparr>"
  have step: "pageLoop remote P page st = pageLoop remote P (Suc page) ?st1"
    using pageLoop_step[OF le c Suc.prems(1)] .
  have r1: "Results (results ?st1) = Some (rs @ page_records remote page)" by simp
  have c1: "\<forall>i. Suc page \<le> i \<and> i < Suc page + k \<longrightarrow> page_continues remote i"
    using Suc.prems(2) by simp
  have b1: "int (Suc page + k) \<le> P + 1" using Suc.prems(3) by simp
  have up: "[page..<page + Suc k] = page # [Suc page..<Suc page + k]"
    by (simp add: upt_conv_Cons)
  show ?case
    unfolding step Suc.IH[OF r1 c1 b1] up by simp
qed

lemma type_error_not_stop: "\<not> stops_paging (type_error ''push'')"
  by (simp add: stops_paging_def type_error_def)

lemma pageLoop_cases:
  assumes "int page \<le> P"
  shows "pageLoop remote P page st = st\<lparr>pagesFetched := pagesFetched st @ [page]\<rparr>
       \<or> (\<exists>st'. pagesFetched st' = pagesFetched st @ [page]
               \<and> (Results (results st) \<noteq> None \<longrightarrow> Results (results st') \<noteq> None)
               \<and> pageLoop remote P page st = pageLoop remote P (Suc page) st')"
proof (cases "remote page")
  case (Inl e)
  show ?thesis
  proof (cases "stops_paging e")
    case True
    then show ?thesis using pageLoop_stop[of page P remote e st] assms Inl by simp
  next
    case False
    then have "pageLoop remote P page st =
        pageLoop remote P (Suc page) (st\<lparr>pagesFetched := pagesFetched st @ [page]\<rparr>)"
      using pageLoop_skip[of page P remote e st] assms Inl by simp
    moreover have "pagesFetched (st\<lparr>pagesFetched := pagesFetched st @ [page]\<rparr>)
                   = pagesFetched st @ [page]" by simp
    moreover have "Results (results st) \<noteq> None \<longrightarrow>
        Results (results (st\<lparr>pagesFetched := pagesFetched st @ [page]\<rparr>)) \<noteq> None" by simp
    ultimately show ?thesis by blast
  qed
next
  case (Inr pg)
  show ?thesis
  proof (cases "no_records pg")
    case True
    then show ?thesis using pageLoop_empty[of page P remote pg st] assms Inr by simp
  next
    case False
    then obtain new where new: "Results pg = Some new" "new \<noteq> []"
      by (auto simp: no_records_def split: option.splits)
    show ?thesis
    proof (cases "Results (results st)")
      case None
      have "pageLoop remote P page st =
          pageLoop remote P (Suc page) (st\<lparr>pagesFetched := pagesFetched st @ [page]\<rparr>)"
        using assms Inr new None type_error_not_stop
        by (subst pageLoop.simps) (simp add: Let_def stops_paging_def)
      moreover have "pagesFetched (st\<lparr>pagesFetched := pagesFetched st @ [page]\<rparr>)
                   = pagesFetched st @ [page]" by simp
      ultimately show ?thesis using None by blast
    next
      case (Some rs)
      let ?st' = "st\<lparr>pagesFetched := pagesFetched st @ [page],
                     results := (results st)\<lparr>Results := Some (rs @ new)\<rparr>\<rparr>"
      have "pageLoop remote P page st = pageLoop remote P (Suc page) ?st'"
        using pageLoop_append[of page P remote pg new st rs] assms Inr new Some by simp
      moreover have "pagesFetched ?st' = pagesFetched st @ [page]" by simp
      moreover have "Results (results ?st') \<noteq> None" by simp
      ultimately show ?thesis by blast
    qed
  qed
qed

lemma pageLoop_invariants:
  "(\<exists>k. pagesFetched (pageLoop remote P m st) = pagesFetched st @ [m..<m + k]
        \<and> (int m \<le> P \<longrightarrow> 0 < k) \<and> (0 < k \<longrightarrow> int (m + k) \<le> P + 1))
   \<and> (Results (results st) \<noteq> None \<longrightarrow> Results (results (pageLoop remote P m st)) \<noteq> None)"
proof (induction "nat (P + 1 - int m)" arbitrary: m st)
  case 0
  then have "\<not> int m \<le> P" by simp
  then have "pageLoop remote P m st = st" by (rule pageLoop_done)
  then show ?case using \<open>\<not> int m \<le> P\<close> by (auto intro: exI[of _ 0])
next
  case (Suc d)
  then have le: "int m \<le> P" by simp
  have d: "d = nat (P + 1 - int (Suc m))" using Suc.hyps(2) by simp
  from pageLoop_cases[OF le, of remote st]
  show ?case
  proof
    assume e: "pageLoop remote P m st = st\<lparr>pagesFetched := pagesFetched st @ [m]\<rparr>"
    have "pagesFetched (pageLoop remote P m st) = pagesFetched st @ [m..<m + 1]"
      using e by simp
    moreover have "int (m + 1) \<le> P + 1" using le by simp
    ultimately have "\<exists>k. pagesFetched (pageLoop remote P m st) = pagesFetched st @ [m..<m + k]
        \<and> (int m \<le> P \<longrightarrow> 0 < k) \<and> (0 < k \<longrightarrow> int (m + k) \<le> P + 1)"
      by (intro exI[of _ 1]) simp
    then show ?thesis using e by simp
  next
    assume "\<exists>st'. pagesFetched st' = pagesFetched st @ [m]
               \<and> (Results (results st) \<noteq> None \<longrightarrow> Results (results st') \<noteq> None)
               \<and> pageLoop remote P m st = pageLoop remote P (Suc m) st'"
    then obtain st' where st': "pagesFetched st' = pagesFetched st @ [m]"
        "Results (results st) \<noteq> None \<longrightarrow> Results (results st') \<noteq> None"
        "pageLoop remote P m st = pageLoop remote P (Suc m) st'"
      by blast
    from Suc.hyps(1)[OF d, of st'] obtain k where
        k: "pagesFetched (pageLoop remote P (Suc m) st') = pagesFetched st' @ [Suc m..<Suc m + k]"
           "0 < k \<longrightarrow> int (Suc m + k) \<le> P + 1"
       and r: "Results (results st') \<noteq> None \<longrightarrow>
               Results (results (pageLoop remote P (Suc m) st')) \<noteq> None"
      by blast
    have "pagesFetched (pageLoop remote P m st) = pagesFetched st @ [m..<m + Suc k]"
      using k(1) st'(1,3) by (simp add: upt_conv_Cons)
    moreover have "int (m + Suc k) \<le> P + 1"
      using k(2) le by (cases "k = 0") simp_all
    ultimately have "\<exists>k. pagesFetched (pageLoop remote P m st) = pagesFetched st @ [m..<m + k]
        \<and> (int m \<le> P \<longrightarrow> 0 < k) \<and> (0 < k \<longrightarrow> int (m + k) \<le> P + 1)"
      by (intro exI[of _ "Suc k"]) simp
    then show ?thesis using r st'(2,3) by simp
  qed
qed

lemma executeSearch_paging:
  assumes "remote 1 = Inr first"
    and "fetchMultiplePages opts \<or> fetchAllPages opts"
    and "reported_total first > (case Results first of None \<Rightarrow> 0 | Some rs \<Rightarrow> length rs)"
  shows "executeSearch opts remote =
     (case Results (results (pageLoop remote (pages_to_fetch opts first) 2
                               \<lparr>results = first, pagesFetched = [1]\<rparr>)) of
        None \<Rightarrow> (Inl (type_error ''length''),
                 pagesFetched (pageLoop remote (pages_to_fetch opts first) 2
                                 \<lparr>results = first, pagesFetched = [1]\<rparr>))
      | Some rs \<Rightarrow> (Inr (results (pageLoop remote (pages_to_fetch opts first) 2
                                   \<lparr>results = first, pagesFetched = [1]\<rparr>)),
                   pagesFetched (pageLoop remote (pages_to_fetch opts first) 2
                                   \<lparr>results = first, pagesFetched = [1]\<rparr>)))"
proof -
  have cond: "(fetchMultiplePages opts \<or> fetchAllPages opts)
      \<and> (case Paging first of
            None \<Rightarrow> 0
          | Some pg \<Rightarrow> (case TotalRecords pg of None \<Rightarrow> 0 | Some n \<Rightarrow> n))
        > (case Results first of None \<Rightarrow> 0 | Some rs \<Rightarrow> length rs)"
    using assms(2,3) by (simp add: reported_total_def)
  show ?thesis
    unfolding executeSearch_def pages_to_fetch_def total_pages_def page_size_def
      reported_total_def
    by (simp only: assms(1) sum.case Let_def cond if_True simp_thms)
qed

lemma executeSearch_single:
  assumes "remote 1 = Inr first"
    and "\<not> ((fetchMultiplePages opts \<or> fetchAllPages opts)
           \<and> reported_total first > (case Results first of None \<Rightarrow> 0 | Some rs \<Rightarrow> length rs))"
  shows "executeSearch opts remote = (Inr first, [1])"
  using assms unfolding executeSearch_def reported_total_def
  by (auto simp: Let_def)

lemma fetched_prefix:
  assumes "2 \<le> n"
  shows "[1] @ [2..<2 + (n - 2)] = [1..<n]"
proof -
  have a: "2 + (n - 2) = n" using assms by simp
  have "[1..<n] = 1 # [Suc 1..<n]" using assms by (intro upt_conv_Cons) simp
  then show ?thesis unfolding a by (simp only: Suc_1 append_Cons append_Nil)
qed

lemma fetched_next:
  assumes "2 \<le> n"
  shows "[1..<n] @ [n] = [1..<Suc n]"
  using assms by simp

lemma executeSearch_reach:
  assumes first: "remote 1 = Inr first" and some: "Results first = Some rs0"
    and multi: "fetchMultiplePages opts \<or> fetchAllPages opts"
    and more: "reported_total first > length rs0"
    and n: "2 \<le> n" "int n \<le> pages_to_fetch opts first + 1"
    and reach: "\<forall>i. 2 \<le> i \<and> i < n \<longrightarrow> page_continues remote i"
  shows "executeSearch opts remote =
     (Inr (results (pageLoop remote (pages_to_fetch opts first) n
                      \<lparr>results = first\<lparr>Results :=
                          Some (rs0 @ concat (map (page_records remote) [2..<n]))\<rparr>,
                       pagesFetched = [1..<n]\<rparr>)),
      pagesFetched (pageLoop remote (pages_to_fetch opts first) n
                      \<lparr>results = first\<lparr>Results :=
                          Some (rs0 @ concat (map (page_records remote) [2..<n]))\<rparr>,
                       pagesFetched = [1..<n]\<rparr>))"
proof -
  let ?P = "pages_to_fetch opts first"
  let ?st0 = "\<lparr>results = first, pagesFetched = [1]\<rparr>"
  let ?stn = "\<lparr>results = first\<lparr>Results :=
                          Some (rs0 @ concat (map (page_records remote) [2..<n]))\<rparr>,
               pagesFetched = [1..<n]\<rparr>"
  have r0: "Results (results ?st0) = Some rs0" using some by simp
  have a: "2 + (n - 2) = n" using n(1) by simp
  have c: "\<forall>i. 2 \<le> i \<and> i < 2 + (n - 2) \<longrightarrow> page_continues remote i"
    unfolding a using reach .
  have b: "int (2 + (n - 2)) \<le> ?P + 1" unfolding a using n(2) .
  have "pageLoop remote ?P 2 ?st0 =
        pageLoop remote ?P (2 + (n - 2))
          (?st0\<lparr>pagesFetched := pagesFetched ?st0 @ [2..<2 + (n - 2)],
               results := (results ?st0)\<lparr>Results :=
                 Some (rs0 @ concat (map (page_records remote) [2..<2 + (n - 2)]))\<rparr>\<rparr>)"
    by (rule pageLoop_reach[OF r0 c b])
  also have "\<dots> = pageLoop remote ?P n ?stn"
    using fetched_prefix[OF n(1)] unfolding a by simp
  finally have loop: "pageLoop remote ?P 2 ?st0 = pageLoop remote ?P n ?stn" .
  have "Results (results ?stn) \<noteq> None" by simp
  then have "Results (results (pageLoop remote ?P n ?stn)) \<noteq> None"
    using pageLoop_invariants[of remote ?P n ?stn] by blast
  then obtain rs where "Results (results (pageLoop remote ?P n ?stn)) = Some rs" by blast
  moreover have "reported_total first > (case Results first of None \<Rightarrow> 0 | Some rs \<Rightarrow> length rs)"
    using more some by simp
  then have "executeSearch opts remote =
     (case Results (results (pageLoop remote ?P 2 ?st0)) of
        None \<Rightarrow> (Inl (type_error ''length''), pagesFetched (pageLoop remote ?P 2 ?st0))
      | Some rs \<Rightarrow> (Inr (results (pageLoop remote ?P 2 ?st0)),
                   pagesFetched (pageLoop remote ?P 2 ?st0)))"
    using executeSearch_paging[of remote first opts] first multi by simp
  ultimately show ?thesis
    unfolding loop by simp
qed

lemma ceiling_divide_numeral_rat [simp]:
  "\<lceil>(numeral a :: rat) / numeral b\<rceil> = - (- numeral a div numeral b)"
  using ceiling_divide_eq_div[of "numeral a" "numeral b", where ?'a = rat] by simp

lemma page_of_facts:
  "Results (page_of p n tot sz) = Some (replicate n p)"
  "reported_total (page_of p n tot sz) = tot"
  "page_size (page_of p n tot sz) = (if sz = 0 then 12 else sz)"
  by (simp_all add: page_of_def reported_total_def page_size_def)

lemma one_two_upt: "[1] @ [2..<2 + k] = [1..<2 + k]"
proof -
  have "[1..<2 + k] = 1 # [Suc 1..<2 + k]" by (intro upt_conv_Cons) simp
  then show ?thesis by (simp only: Suc_1 append_Cons append_Nil)
qed

lemma upt_1_3: "[1..<2 + 1] = [1, 2 :: nat]"
  by (simp add: upt_conv_Cons)

lemma pages_40: "pages_to_fetch opts_capped (page_of 1 20 40 20) = 1"
  "pages_to_fetch opts_all (page_of 1 20 40 20) = 2"
  "pages_to_fetch opts_all (page_of 1 20 100 20) = 5"
  by (simp_all add: pages_to_fetch_def total_pages_def page_of_facts opts_capped_def opts_all_def)

subsection \<open>Garage detection\<close>

lemma garage_test:
  "test_g GARAGE_REGEX ''Garage'' 0 = (True, 6)"
  "test_g GARAGE_REGEX ''Garage'' 6 = (False, 0)"
  by (simp_all add: test_g_def GARAGE_REGEX_def canon_def)

lemma garage_check:
  "checkHasGarage (Property (garage_record mls)) 0 = (True, 6)"
  "checkHasGarage (Property (garage_record mls)) 6 = (False, 0)"
  by (simp_all add: checkHasGarage_def garage_record_def string_defs garage_test)


subsection \<open>Garage detection from a fresh pattern\<close>

lemma test_g_fresh:
  "fst (test_g r s 0) = has_match r s"
  "\<not> has_match r s \<Longrightarrow> snd (test_g r s 0) = 0"
  using scan_None_iff[of r s 0]
  by (auto simp: test_g_def split: option.splits)

lemma some_garage_fresh:
  "fst (some_garage ps 0) = list_ex names_garage ps
   \<and> (\<not> list_ex names_garage ps \<longrightarrow> snd (some_garage ps 0) = 0)"
proof (induction ps)
  case Nil
  then show ?case by simp
next
  case (Cons p ps)
  show ?case
  proof (cases "truthy (Name p)")
    case False
    then show ?thesis using Cons by (simp add: names_garage_def)
  next
    case True
    show ?thesis
    proof (cases "has_match GARAGE_REGEX (or_empty (Name p))")
      case True
      then have "fst (test_g GARAGE_REGEX (or_empty (Name p)) 0)" by (simp add: test_g_fresh)
      then obtain li where "test_g GARAGE_REGEX (or_empty (Name p)) 0 = (True, li)"
        by (cases "test_g GARAGE_REGEX (or_empty (Name p)) 0") auto
      then show ?thesis using True \<open>truthy (Name p)\<close> by (simp add: names_garage_def)
    next
      case False
      then have "test_g GARAGE_REGEX (or_empty (Name p)) 0 = (False, 0)"
        using test_g_fresh[of GARAGE_REGEX "or_empty (Name p)"]
        by (cases "test_g GARAGE_REGEX (or_empty (Name p)) 0") auto
      then show ?thesis using False Cons by (simp add: names_garage_def)
    qed
  qed
qed


subsection \<open>The outcomes of a run\<close>

lemma run_config_announced:
  "announced (run_config opts w i conf st) = announced st @ [Suc i]"
  by (simp add: run_config_def record_failure_def Let_def split: option.splits sum.splits)

lemma run_config_failed:
  "map fst (failedConfigs (run_config opts w i conf st)) =
     map fst (failedConfigs st) @ (if unit_fails opts w then [Suc i] else [])"
  by (auto simp: run_config_def record_failure_def Let_def unit_fails_def search_fails_def
      save_fails_def split: option.splits sum.splits)

lemma run_config_outcomes:
  "\<not> save_fails opts w \<Longrightarrow>
   map is_failure (allResults (run_config opts w i conf st)) =
     map is_failure (allResults st) @ [unit_fails opts w]"
  by (auto simp: run_config_def record_failure_def Let_def unit_fails_def search_fails_def
      save_fails_def split: option.splits sum.splits)

lemma upt_add_Suc: "[i..<i + Suc n] = i # [Suc i..<Suc i + n]"
  using upt_conv_Cons[of i "i + Suc n"] by simp

lemma run_configs_announced:
  "announced (run_configs opts world i confs st) =
     announced st @ map Suc [i..<i + length confs]"
proof (induction confs arbitrary: i st)
  case Nil
  then show ?case by simp
next
  case (Cons c cs)
  have "[i..<i + length (c # cs)] = i # [Suc i..<Suc i + length cs]"
    using upt_add_Suc[of i "length cs"] by simp
  then show ?case by (simp add: Cons.IH run_config_announced)
qed

lemma run_configs_failed:
  "map fst (failedConfigs (run_configs opts world i confs st)) =
     map fst (failedConfigs st)
       @ map Suc (filter (\<lambda>j. unit_fails opts (world j)) [i..<i + length confs])"
proof (induction confs arbitrary: i st)
  case Nil
  then show ?case by simp
next
  case (Cons c cs)
  have "[i..<i + length (c # cs)] = i # [Suc i..<Suc i + length cs]"
    using upt_add_Suc[of i "length cs"] by simp
  then show ?case by (simp add: Cons.IH run_config_failed)
qed

lemma run_configs_outcomes:
  "list_all (\<lambda>j. \<not> save_fails opts (world j)) [i..<i + length confs] \<Longrightarrow>
   map is_failure (allResults (run_configs opts world i confs st)) =
     map is_failure (allResults st)
       @ map (\<lambda>j. unit_fails opts (world j)) [i..<i + length confs]"
proof (induction confs arbitrary: i st)
  case Nil
  then show ?case by simp
next
  case (Cons c cs)
  have e: "[i..<i + length (c # cs)] = i # [Suc i..<Suc i + length cs]"
    using upt_add_Suc[of i "length cs"] by simp
  from Cons.prems have "list_all (\<lambda>j. \<not> save_fails opts (world j)) (i # [Suc i..<Suc i + length cs])"
    unfolding e .
  then have a: "\<not> save_fails opts (world i)"
    and b: "list_all (\<lambda>j. \<not> save_fails opts (world j)) [Suc i..<Suc i + length cs]"
    by simp_all
  have "run_configs opts world i (c # cs) st =
          run_configs opts world (Suc i) cs (run_config opts (world i) i c st)" by simp
  then show ?case unfolding e using Cons.IH[OF b] run_config_outcomes[OF a] by simp
qed

lemma pageLoop_no_list:
  "Results (results st) = None \<Longrightarrow> results (pageLoop remote P m st) = results st"
proof (induction "nat (P + 1 - int m)" arbitrary: m st)
  case 0
  then have "\<not> int m \<le> P" by simp
  then show ?case by (subst pageLoop.simps) simp
next
  case (Suc k)
  then have le: "int m \<le> P" by linarith
  have k: "k = nat (P + 1 - int (Suc m))" using Suc.hyps(2) by linarith
  let ?st1 = "st\<lparr>pagesFetched := pagesFetched st @ [m]\<rparr>"
  have r1: "Results (results ?st1) = None" using Suc.prems by simp
  have ih: "results (pageLoop remote P (Suc m) ?st1) = results st"
    using Suc.hyps(1)[OF k r1] by simp
  show ?case
    by (subst pageLoop.simps)
       (auto simp: le Let_def Suc.prems ih split: sum.splits option.splits)
qed

section \<open>The scoring engine\<close>



text \<open>
  Claim C10. Whenever price and area are positive and the price per area is below 0.005,
  the price per area rounded to two decimal places is 0, the value term is 10000 divided
  by zero, and the priority score is not a finite number. A rent of 1 for 1000 square
  feet is such a listing.
\<close>

theorem value_term_divides_by_zero:
  assumes "L = fst (processListing r c li)"
    and "0 < rentValue L" and "0 < sqft L" and "rentValue L / sqft L < 1 / 200"
  shows "pricePerSqft L = Some 0
       \<and> js_div (Num 10000) (parseFloat (pricePerSqft L)) = PosInf
       \<and> priorityScore L = PosInf
       \<and> \<not> is_finite (priorityScore L)"
proof -
  have q0: "0 \<le> rentValue L / sqft L" using assms(2,3) by simp
  have z: "toFixed2 (rentValue L / sqft L) = 0" using toFixed2_small[OF q0 assms(4)] .
  have p: "pricePerSqft L = Some 0"
    using pricePerSqft_processListing[of r c li] assms(1,3) z by simp
  have r0: "round (rentValue L / sqft L * 100) = 0"
    using z q0 by (simp add: toFixed2_round)
  have s: "priorityScore L = PosInf"
    unfolding assms(1) priorityScore_processListing
    using assms(2,3) r0 unfolding assms(1) by (simp add: spec_score_def)
  show ?thesis using p s by (simp add: parseFloat_def)
qed

theorem value_term_divides_by_zero_witness:
  "rentValue (fst (processListing cheap_listing None 0)) = 1
   \<and> sqft (fst (processListing cheap_listing None 0)) = 1000
   \<and> pricePerSqft (fst (processListing cheap_listing None 0)) = Some 0
   \<and> priorityScore (fst (processListing cheap_listing None 0)) = PosInf"
  using value_term_divides_by_zero[OF refl, of cheap_listing None 0] cheap_numbers
  by simp

section \<open>The filter\<close>

text \<open>
  Claim C6. \<^verbatim>\<open>filterAndSortListings\<close> keeps a listing if and only if its area is at least 700
  square feet and its basement flag is false.
\<close>

theorem filter_keeps_iff:
  "L \<in> set (filterAndSortListings ls) \<longleftrightarrow> L \<in> set ls \<and> sqft L \<ge> 700 \<and> \<not> isBasement L"
  by (auto simp: filterAndSortListings_def set_sort_listings)

theorem filter_keeps_iff_witness:
  "listing_with ''A'' 650 False
     \<notin> set (filterAndSortListings
              [listing_with ''A'' 650 False, listing_with ''B'' 700 True,
               listing_with ''C'' 700 False])
   \<and> listing_with ''B'' 700 True
     \<notin> set (filterAndSortListings
              [listing_with ''A'' 650 False, listing_with ''B'' 700 True,
               listing_with ''C'' 700 False])
   \<and> listing_with ''C'' 700 False
     \<in> set (filterAndSortListings
              [listing_with ''A'' 650 False, listing_with ''B'' 700 True,
               listing_with ''C'' 700 False])"
  unfolding filter_keeps_iff by (simp add: listing_with_def)

section \<open>The amenity detectors\<close>

text \<open>
  Claim C8, as amended. The pet-friendly and carpet-free detectors return \<^verbatim>\<open>'unknown'\<close> when
  the description is absent or is the empty string, \<^verbatim>\<open>'n'\<close> when it is a non-empty string
  without a match of the keyword pattern, and \<^verbatim>\<open>'y'\<close> when it is a non-empty string with a
  match; matching ignores case.
\<close>

theorem detectors_three_valued:
  "checkPetFriendly t =
     (case t of
        None \<Rightarrow> ''unknown''
      | Some s \<Rightarrow> if s = [] then ''unknown''
                  else if has_match PET_FRIENDLY_REGEX s then ''y'' else ''n'')
   \<and> checkCarpetFree t =
     (case t of
        None \<Rightarrow> ''unknown''
      | Some s \<Rightarrow> if s = [] then ''unknown''
                  else if has_match CARPET_FREE_REGEX s then ''y'' else ''n'')"
  using checkPetFriendly_value checkCarpetFree_value by simp

text \<open>
  The claim as stated fails for a description that is present and empty: it contains no
  match, and neither detector answers \<^verbatim>\<open>'n'\<close>.
\<close>

theorem empty_description_counterexample:
  "\<not> has_match PET_FRIENDLY_REGEX [] \<and> checkPetFriendly (Some []) \<noteq> ''n''
   \<and> \<not> has_match CARPET_FREE_REGEX [] \<and> checkCarpetFree (Some []) \<noteq> ''n''"
  by (simp add: checkPetFriendly_value checkCarpetFree_value regex_defs)

theorem detectors_three_valued_witness:
  "checkPetFriendly None = ''unknown'' \<and> checkPetFriendly (Some []) = ''unknown''
   \<and> checkPetFriendly (Some ''Sunny unit'') = ''n''
   \<and> checkPetFriendly (Some ''SMALL PETS  ALLOWED'') = ''y''
   \<and> checkCarpetFree None = ''unknown'' \<and> checkCarpetFree (Some []) = ''unknown''
   \<and> checkCarpetFree (Some ''Sunny unit'') = ''n''
   \<and> checkCarpetFree (Some ''New Laminate  Floors'') = ''y''"
proof -
  have n: "\<not> has_match PET_FRIENDLY_REGEX ''Sunny unit''"
          "\<not> has_match CARPET_FREE_REGEX ''Sunny unit''"
    by (simp_all add: regex_defs)
  have "rx_ends PET_FRIENDLY_REGEX ''PETS  ALLOWED'' \<noteq> []"
    by (simp add: regex_defs)
  then have p: "has_match PET_FRIENDLY_REGEX ''SMALL PETS  ALLOWED''"
    by (intro has_matchI[where pre = "''SMALL ''"]) simp_all
  have "rx_ends CARPET_FREE_REGEX ''Laminate  Floors'' \<noteq> []"
    by (simp add: regex_defs)
  then have c: "has_match CARPET_FREE_REGEX ''New Laminate  Floors''"
    by (intro has_matchI[where pre = "''New ''"]) simp_all
  show ?thesis
    using detectors_three_valued[of None] detectors_three_valued[of "Some []"]
      detectors_three_valued[of "Some ''Sunny unit''"]
      detectors_three_valued[of "Some ''SMALL PETS  ALLOWED''"]
      detectors_three_valued[of "Some ''New Laminate  Floors''"] n p c
    by (simp del: has_match.simps)
qed

section \<open>Deduplication\<close>




section \<open>Paging within a unit of work\<close>

text \<open>
  Claim C2, as amended. For a unit of work in multi-page mode whose first page carries a
  record list and reports more records than it holds, the orchestrator computes the
  number of pages as the reported total divided by the page size, rounded up (the page
  size being the reported one, or 12 when none or 0 is reported), and requests the pages
  from 2 on in sequence, up to that number, or up to the smaller of it and the configured
  maximum when not all pages are asked for and the maximum is not 0. A page that returns
  no records ends paging at once and the unit returns what it has collected. With 40
  records reported, a page size of 20 and no maximum below 2, the pages requested are
  exactly 1 and 2.
\<close>

theorem paging_plan:
  assumes first: "remote 1 = Inr first" and some: "Results first = Some rs0"
    and multi: "fetchMultiplePages opts \<or> fetchAllPages opts"
    and more: "reported_total first > length rs0"
  shows "executeSearch opts remote =
           (Inr (results (pageLoop remote (pages_to_fetch opts first) 2
                            \<lparr>results = first, pagesFetched = [1]\<rparr>)),
            pagesFetched (pageLoop remote (pages_to_fetch opts first) 2
                            \<lparr>results = first, pagesFetched = [1]\<rparr>))
       \<and> (\<exists>k. snd (executeSearch opts remote) = [1..<2 + k]
              \<and> (2 \<le> pages_to_fetch opts first \<longrightarrow> 0 < k)
              \<and> (0 < k \<longrightarrow> int (1 + k) \<le> pages_to_fetch opts first))
       \<and> (\<forall>n pg. 2 \<le> n \<and> int n \<le> pages_to_fetch opts first
                 \<and> (\<forall>i. 2 \<le> i \<and> i < n \<longrightarrow> page_continues remote i)
                 \<and> remote n = Inr pg \<and> no_records pg
             \<longrightarrow> executeSearch opts remote =
                   (Inr (first\<lparr>Results :=
                           Some (rs0 @ concat (map (page_records remote) [2..<n]))\<rparr>),
                    [1..<Suc n]))
       \<and> (reported_total first = 40 \<and> page_size first = 20
            \<and> (fetchAllPages opts \<or> maxPages opts = 0 \<or> 2 \<le> maxPages opts)
             \<longrightarrow> snd (executeSearch opts remote) = [1, 2])"
proof -
  let ?P = "pages_to_fetch opts first"
  let ?st0 = "\<lparr>results = first, pagesFetched = [1]\<rparr>"
  have vac: "\<forall>i. 2 \<le> i \<and> i < 2 \<longrightarrow> page_continues remote i" by auto
  have a: "executeSearch opts remote =
           (Inr (results (pageLoop remote ?P 2 ?st0)), pagesFetched (pageLoop remote ?P 2 ?st0))"
  proof (cases "2 \<le> ?P + 1")
    case True
    have "first\<lparr>Results := Some rs0\<rparr> = first" using some by (rule Results_update_same)
    then show ?thesis
      using executeSearch_reach[OF first some multi more order_refl _ vac] True
      by (simp add: upt_conv_Cons)
  next
    case False
    then have d: "pageLoop remote ?P 2 ?st0 = ?st0" by (intro pageLoop_done) simp
    have "reported_total first > (case Results first of None \<Rightarrow> 0 | Some rs \<Rightarrow> length rs)"
      using more some by simp
    then show ?thesis
      using executeSearch_paging[of remote first opts] first multi some unfolding d by simp
  qed
  obtain k where k: "pagesFetched (pageLoop remote ?P 2 ?st0) = pagesFetched ?st0 @ [2..<2 + k]"
      "int 2 \<le> ?P \<longrightarrow> 0 < k" "0 < k \<longrightarrow> int (2 + k) \<le> ?P + 1"
    using pageLoop_invariants[of remote ?P 2 ?st0] by blast
  have "snd (executeSearch opts remote) = [1] @ [2..<2 + k]"
    unfolding a using k(1) by (simp only: snd_conv search_state.select_convs)
  then have seq: "snd (executeSearch opts remote) = [1..<2 + k]"
    unfolding one_two_upt .
  have b: "\<exists>k. snd (executeSearch opts remote) = [1..<2 + k]
              \<and> (2 \<le> ?P \<longrightarrow> 0 < k) \<and> (0 < k \<longrightarrow> int (1 + k) \<le> ?P)"
    using seq k(2,3) by (intro exI[of _ k]) simp
  have c: "\<forall>n pg. 2 \<le> n \<and> int n \<le> ?P
                 \<and> (\<forall>i. 2 \<le> i \<and> i < n \<longrightarrow> page_continues remote i)
                 \<and> remote n = Inr pg \<and> no_records pg
             \<longrightarrow> executeSearch opts remote =
                   (Inr (first\<lparr>Results :=
                           Some (rs0 @ concat (map (page_records remote) [2..<n]))\<rparr>),
                    [1..<Suc n])"
  proof (intro allI impI)
    fix n pg
    assume h: "2 \<le> n \<and> int n \<le> ?P
                 \<and> (\<forall>i. 2 \<le> i \<and> i < n \<longrightarrow> page_continues remote i)
                 \<and> remote n = Inr pg \<and> no_records pg"
    let ?stn = "\<lparr>results = first\<lparr>Results :=
                          Some (rs0 @ concat (map (page_records remote) [2..<n]))\<rparr>,
                 pagesFetched = [1..<n]\<rparr>"
    have n: "2 \<le> n" "int n \<le> ?P + 1" using h by simp_all
    have reach: "\<forall>i. 2 \<le> i \<and> i < n \<longrightarrow> page_continues remote i" using h by blast
    note run = executeSearch_reach[OF first some multi more n reach]
    have "pageLoop remote ?P n ?stn = ?stn\<lparr>pagesFetched := pagesFetched ?stn @ [n]\<rparr>"
      using pageLoop_empty[of n ?P remote pg ?stn] h by simp
    then show "executeSearch opts remote =
                   (Inr (first\<lparr>Results :=
                           Some (rs0 @ concat (map (page_records remote) [2..<n]))\<rparr>),
                    [1..<Suc n])"
      unfolding run using fetched_next[OF n(1)] by simp
  qed
  have d: "reported_total first = 40 \<and> page_size first = 20
            \<and> (fetchAllPages opts \<or> maxPages opts = 0 \<or> 2 \<le> maxPages opts)
             \<longrightarrow> snd (executeSearch opts remote) = [1, 2]"
  proof
    assume h: "reported_total first = 40 \<and> page_size first = 20
            \<and> (fetchAllPages opts \<or> maxPages opts = 0 \<or> 2 \<le> maxPages opts)"
    then have "total_pages first = 2" by (simp add: total_pages_def)
    then have P: "?P = 2" using h by (auto simp: pages_to_fetch_def)
    then have "k = 1" using k(2,3) by simp
    then show "snd (executeSearch opts remote) = [1, 2]"
      unfolding seq using upt_1_3 by simp
  qed
  show ?thesis using a b c d by blast
qed

text \<open>
  The claim as stated fails under a page maximum of 1: multi-page mode is on, 40 records
  are reported and the first page holds 20, yet no page but the first is requested.
\<close>

theorem page_cap_counterexample:
  "fetchMultiplePages opts_capped
   \<and> remote_40 1 = Inr (page_of 1 20 40 20)
   \<and> reported_total (page_of 1 20 40 20 :: nat result_page) = 40
   \<and> Results (page_of 1 20 40 20) = Some (replicate 20 1)
   \<and> snd (executeSearch opts_capped remote_40) = [1]"
proof -
  have d: "pageLoop remote_40 1 2 \<lparr>results = page_of 1 20 40 20, pagesFetched = [1]\<rparr>
           = \<lparr>results = page_of 1 20 40 20, pagesFetched = [1]\<rparr>"
    by (intro pageLoop_done) simp
  have p: "remote_40 1 = Inr (page_of 1 20 40 20)"
      "fetchMultiplePages opts_capped \<or> fetchAllPages opts_capped"
      "reported_total (page_of 1 20 40 20 :: nat result_page)
         > (case Results (page_of 1 20 40 20 :: nat result_page) of
              None \<Rightarrow> 0 | Some rs \<Rightarrow> length rs)"
    by (simp_all add: remote_40_def page_of_facts opts_capped_def)
  note e = executeSearch_paging[where remote = remote_40 and first = "page_of 1 20 40 20"
      and opts = opts_capped, OF p]
  have "snd (executeSearch opts_capped remote_40) = [1]"
    unfolding e pages_40(1) d by (simp add: page_of_facts)
  then show ?thesis
    by (simp add: remote_40_def page_of_facts opts_capped_def)
qed

theorem paging_plan_witness:
  "executeSearch opts_all remote_40_short = (Inr (page_of 1 20 40 20), [1, 2])
   \<and> snd (executeSearch opts_all remote_40) = [1, 2]"
proof -
  have e: "no_records (\<lparr>Results = Some [], Paging = None\<rparr> :: nat result_page)"
    by (simp add: no_records_def)
  have vac: "\<forall>i. 2 \<le> i \<and> i < 2 \<longrightarrow> page_continues remote_40_short i" by auto
  have s: "remote_40_short 1 = Inr (page_of 1 20 40 20)"
          "remote_40_short 2 = Inr \<lparr>Results = Some [], Paging = None\<rparr>"
    by (simp_all add: remote_40_short_def)
  have m: "fetchMultiplePages opts_all \<or> fetchAllPages opts_all" by (simp add: opts_all_def)
  have g: "reported_total (page_of 1 20 40 20 :: nat result_page) > length (replicate 20 (1::nat))"
    by (simp add: page_of_facts)
  note t = paging_plan[where remote = remote_40_short and first = "page_of 1 20 40 20"
      and opts = opts_all and ?rs0.0 = "replicate 20 1", OF s(1) page_of_facts(1) m g]
  have inst: "2 \<le> (2::nat) \<and> int 2 \<le> pages_to_fetch opts_all (page_of 1 20 40 20)
                 \<and> (\<forall>i. 2 \<le> i \<and> i < 2 \<longrightarrow> page_continues remote_40_short i)
                 \<and> remote_40_short 2 = Inr \<lparr>Results = Some [], Paging = None\<rparr>
                 \<and> no_records (\<lparr>Results = Some [], Paging = None\<rparr> :: nat result_page)"
    unfolding pages_40(2) using vac s(2) e by simp
  have "executeSearch opts_all remote_40_short =
                   (Inr ((page_of 1 20 40 20)\<lparr>Results :=
                           Some (replicate 20 1 @ concat (map (page_records remote_40_short) [2..<2]))\<rparr>),
                    [1..<Suc 2])"
    using t[THEN conjunct2, THEN conjunct2, THEN conjunct1, rule_format, OF inst] .
  then have a: "executeSearch opts_all remote_40_short = (Inr (page_of 1 20 40 20), [1, 2])"
    by (simp add: upt_conv_Cons page_of_def)
  have s': "remote_40 1 = Inr (page_of 1 20 40 20)" by (simp add: remote_40_def)
  have "reported_total (page_of 1 20 40 20 :: nat result_page) = 40 \<and> page_size (page_of 1 20 40 20 :: nat result_page) = 20
            \<and> (fetchAllPages opts_all \<or> maxPages opts_all = 0 \<or> 2 \<le> maxPages opts_all)
             \<longrightarrow> snd (executeSearch opts_all remote_40) = [1, 2]"
    using paging_plan[where remote = remote_40 and first = "page_of 1 20 40 20"
      and opts = opts_all and ?rs0.0 = "replicate 20 1", OF s' page_of_facts(1) m g] by (elim conjE)
  then have b: "snd (executeSearch opts_all remote_40) = [1, 2]"
    by (simp add: page_of_facts opts_all_def)
  show ?thesis using a b by simp
qed



text \<open>
  A first page without a record list, in a search that goes on to further pages: no page
  can be appended, and the read of the record count after the loop throws, so the unit of
  work fails whatever the further pages hold.
\<close>

theorem first_page_without_list:
  "remote 1 = Inr first \<Longrightarrow> Results first = None \<Longrightarrow>
   fetchMultiplePages opts \<or> fetchAllPages opts \<Longrightarrow> 0 < reported_total first \<Longrightarrow>
   fst (executeSearch opts remote) = Inl (type_error ''length'')"
proof -
  assume a: "remote 1 = Inr first" "Results first = None"
    "fetchMultiplePages opts \<or> fetchAllPages opts" "0 < reported_total first"
  have "\<And>P. Results (results (pageLoop remote P 2 \<lparr>results = first, pagesFetched = [1]\<rparr>)) = None"
    using pageLoop_no_list[of "\<lparr>results = first, pagesFetched = [1]\<rparr>" remote] a(2) by simp
  then show ?thesis using a
    by (auto simp: executeSearch_def Let_def reported_total_def split: option.splits)
qed

section \<open>A run over all configurations\<close>

text \<open>
  Claim C4 at a failing input. One configuration, a search that succeeds, and a write of
  the result that throws: the run returns two outcomes for the one configuration, the
  result and a failure descriptor.
\<close>

theorem save_failure_two_outcomes:
  "executeByNumber opts_save True [''OTPP''] world_disk_full =
     Inr \<lparr>allResults = [Fetched (page_of 1 20 20 20),
                         FailureDescriptor 1 ''ENOSPC: no space left on device, write''],
          failedConfigs = [(1, ''OTPP'', ''ENOSPC: no space left on device, write'')],
          announced = [1]\<rparr>"
proof -
  have "executeSearch opts_save (\<lambda>p. Inr (page_of p 20 20 20)) = (Inr (page_of 1 20 20 20), [1])"
    by (intro executeSearch_single) (simp_all add: opts_save_def)
  then show ?thesis
    by (simp add: executeByNumber_def run_config_def record_failure_def world_disk_full_def
        opts_save_def)
qed

text \<open>
  The accounting of a run. Every configuration is announced, in order; the failure list
  holds one entry for each unit that fails, in order; the three numbers of the summary add
  up. When no write of a result fails, the run returns one outcome for each configuration,
  a failure descriptor exactly for the units that fail.
\<close>

theorem run_accounting:
  "executeByNumber opts True allConfigs world = Inr st \<Longrightarrow>
   announced st = [1..<Suc (length allConfigs)]
   \<and> map fst (failedConfigs st) =
       map Suc (filter (\<lambda>j. unit_fails opts (world j)) [0..<length allConfigs])
   \<and> (case summary allConfigs st of (n, successes, failures) \<Rightarrow>
        successes + failures = n \<and> n = int (length allConfigs)
        \<and> failures = int (length (filter (\<lambda>j. unit_fails opts (world j)) [0..<length allConfigs])))
   \<and> (list_all (\<lambda>j. \<not> save_fails opts (world j)) [0..<length allConfigs] \<longrightarrow>
        length (allResults st) = length allConfigs
        \<and> map is_failure (allResults st) =
            map (\<lambda>j. unit_fails opts (world j)) [0..<length allConfigs])"
proof -
  assume "executeByNumber opts True allConfigs world = Inr st"
  then have st: "st = run_configs opts world 0 allConfigs
                  \<lparr>allResults = [], failedConfigs = [], announced = []\<rparr>"
    by (simp add: executeByNumber_def)
  have a: "announced st = [1..<Suc (length allConfigs)]"
    unfolding st by (simp add: run_configs_announced map_Suc_upt)
  have f: "map fst (failedConfigs st) =
       map Suc (filter (\<lambda>j. unit_fails opts (world j)) [0..<length allConfigs])"
    unfolding st using run_configs_failed[of opts world 0 allConfigs] by simp
  from f have l: "length (failedConfigs st) =
      length (filter (\<lambda>j. unit_fails opts (world j)) [0..<length allConfigs])"
    by (metis length_map)
  have s: "(case summary allConfigs st of (n, successes, failures) \<Rightarrow>
        successes + failures = n \<and> n = int (length allConfigs)
        \<and> failures = int (length (filter (\<lambda>j. unit_fails opts (world j)) [0..<length allConfigs])))"
    by (simp add: summary_def l)
  have o: "list_all (\<lambda>j. \<not> save_fails opts (world j)) [0..<length allConfigs] \<longrightarrow>
        length (allResults st) = length allConfigs
        \<and> map is_failure (allResults st) =
            map (\<lambda>j. unit_fails opts (world j)) [0..<length allConfigs]"
  proof
    assume h: "list_all (\<lambda>j. \<not> save_fails opts (world j)) [0..<length allConfigs]"
    have m: "map is_failure (allResults st) =
            map (\<lambda>j. unit_fails opts (world j)) [0..<length allConfigs]"
      unfolding st using run_configs_outcomes[of opts world 0 allConfigs] h by simp
    then have "length (allResults st) = length allConfigs"
      by (metis length_map length_upt minus_nat.diff_0)
    with m show "length (allResults st) = length allConfigs
        \<and> map is_failure (allResults st) =
            map (\<lambda>j. unit_fails opts (world j)) [0..<length allConfigs]" by simp
  qed
  show ?thesis using a f s o by blast
qed

section \<open>Garage detection\<close>

text \<open>
  Claim C7 at a failing input. Two records in a row with a parking entry named
  \<^verbatim>\<open>Garage\<close>: for the second the detector starts from the \<^verbatim>\<open>lastIndex\<close> 6 that the first left
  behind and answers false, so the answer depends on the record processed before.
\<close>

theorem garage_detection_depends_on_history:
  "checkHasGarage (Property (garage_record ''G1'')) 0 = (True, 6)
   \<and> checkHasGarage (Property (garage_record ''G2'')) 6 = (False, 0)
   \<and> map mlsNumber (processAllJsonFiles garage_files 0) = [''G1'', ''G2'']
   \<and> map hasGarage (processAllJsonFiles garage_files 0) = [''y'', ''n'']"
proof -
  have r: "first_occurrences (records_of garage_files) =
           [(Some 1, garage_record ''G1''), (Some 1, garage_record ''G2'')]"
    by (simp add: garage_files_def ident_def garage_record_def)
  have p: "Property (garage_record mls) =
           Some \<lparr>Address = None, LeaseRent = None, Price = None,
                 Parking = Some [\<lparr>Name = Some ''Garage''\<rparr>], ParkingType = None\<rparr>" for mls
    by (simp add: garage_record_def)
  have c: "checkHasGarage (Some \<lparr>Address = None, LeaseRent = None, Price = None,
                 Parking = Some [\<lparr>Name = Some ''Garage''\<rparr>], ParkingType = None\<rparr>) 0 = (True, 6)"
     "checkHasGarage (Some \<lparr>Address = None, LeaseRent = None, Price = None,
                 Parking = Some [\<lparr>Name = Some ''Garage''\<rparr>], ParkingType = None\<rparr>) 6 = (False, 0)"
    using garage_check[of "''G1''"] unfolding p by simp_all
  have "map hasGarage (processAllJsonFiles garage_files 0) = [''y'', ''n'']"
    unfolding processAllJsonFiles_first_occurrences r
    by (simp add: processListing_fields p c)
  moreover have "map mlsNumber (processAllJsonFiles garage_files 0) = [''G1'', ''G2'']"
    unfolding mlsNumber_processAllJsonFiles r by (simp add: ident_def garage_record_def or_empty_def)
  ultimately show ?thesis using garage_check by simp
qed

text \<open>
  From a fresh pattern (\<^verbatim>\<open>lastIndex\<close> 0) the detector answers as a function of the record alone:
  some named parking entry contains \<^verbatim>\<open>garage\<close>, or the parking type does.
\<close>

theorem garage_detection_from_fresh_state:
  "fst (checkHasGarage (Some p) 0) =
     ((case Parking p of None \<Rightarrow> False | Some ps \<Rightarrow> list_ex names_garage ps)
      \<or> (truthy (ParkingType p) \<and> has_match GARAGE_REGEX (or_empty (ParkingType p))))"
proof (cases "Parking p")
  case None
  then show ?thesis by (simp add: checkHasGarage_def test_g_fresh)
next
  case (Some ps)
  show ?thesis
  proof (cases "list_ex names_garage ps")
    case True
    then have "fst (some_garage ps 0)" using some_garage_fresh[of ps] by simp
    then obtain li where "some_garage ps 0 = (True, li)"
      by (cases "some_garage ps 0") auto
    then show ?thesis using Some True by (simp add: checkHasGarage_def)
  next
    case False
    then have "some_garage ps 0 = (False, 0)"
      using some_garage_fresh[of ps] by (cases "some_garage ps 0") auto
    then show ?thesis using Some False by (simp add: checkHasGarage_def test_g_fresh)
  qed
qed
end
